theory Spec2Isabelle
  imports Complex_Main "HOL-Library.Sublist" "HOL-Library.Product_Lexorder"
begin

section \<open>Python values\<close>

text \<open>
  A Python \<^verbatim>\<open>float\<close>: a finite double by its exact rational value (\<open>Fin 0\<close> is \<^verbatim>\<open>0.0\<close>), the
  negative zero \<^verbatim>\<open>-0.0\<close>, an infinity, or NaN.
\<close>

datatype double = Fin rat | NegZero | PInf | MInf | NaN

text \<open>
  \<open>rank\<close> puts the floats that are not NaN in their order (the two zeros are equal).
  \<^verbatim>\<open>x < y\<close> on floats is false whenever one of the two is NaN.
\<close>

fun rank :: "double \<Rightarrow> int \<times> rat" where
  "rank MInf = (- 1, 0)"
| "rank (Fin q) = (0, q)"
| "rank NegZero = (0, 0)"
| "rank PInf = (1, 0)"
| "rank NaN = (2, 0)"

definition lt_double :: "double \<Rightarrow> double \<Rightarrow> bool" where
  "lt_double x y = (x \<noteq> NaN \<and> y \<noteq> NaN \<and> rank x < rank y)"

text \<open>
  The values that \<^verbatim>\<open>response.json()\<close> produces (it also reads the literals \<^verbatim>\<open>NaN\<close>,
  \<^verbatim>\<open>Infinity\<close> and \<^verbatim>\<open>-Infinity\<close>). A Python \<^verbatim>\<open>int\<close> is unbounded. A \<^verbatim>\<open>dict\<close> is an association
  list read with \<open>map_of\<close>; strings are byte strings (UTF-8), which is enough here because
  the code never measures a string.
\<close>

datatype json =
    JNull
  | JBool bool
  | JInt int
  | JFloat double
  | JStr string
  | JList "json list"
  | JObj "(string \<times> json) list"

datatype pyerr = AttributeError | TypeError | KeyError | ValueError | RequestError

text \<open>\<^verbatim>\<open>d.get(k, default)\<close>: only a dict has the method.\<close>

fun py_get :: "json \<Rightarrow> string \<Rightarrow> json \<Rightarrow> pyerr + json" where
  "py_get (JObj kv) k d = Inr (case map_of kv k of None \<Rightarrow> d | Some v \<Rightarrow> v)"
| "py_get _ k d = Inl AttributeError"

text \<open>
  \<^verbatim>\<open>s.lower()\<close>: only a string has the method. The letters A to Z are mapped to a to z and
  every other byte is kept. Python lowers by Unicode tables; no character outside ASCII
  lowers to one of the letters of the words this program compares with.
\<close>

definition lower_char :: "char \<Rightarrow> char" where
  "lower_char c =
     (case map_of (zip ''ABCDEFGHIJKLMNOPQRSTUVWXYZ'' ''abcdefghijklmnopqrstuvwxyz'') c of
        None \<Rightarrow> c
      | Some l \<Rightarrow> l)"

fun py_lower :: "json \<Rightarrow> pyerr + string" where
  "py_lower (JStr s) = Inr (map lower_char s)"
| "py_lower _ = Inl AttributeError"

text \<open>
  Iterating a value in a \<^verbatim>\<open>for\<close> loop or a comprehension: the elements of a list, the keys
  of a dict, the characters of a string (here its bytes: the code only asks such an
  element for a method that no string has).
\<close>

fun py_iter :: "json \<Rightarrow> pyerr + json list" where
  "py_iter (JList xs) = Inr xs"
| "py_iter (JObj kv) = Inr (map (\<lambda>(k, v). JStr k) kv)"
| "py_iter (JStr s) = Inr (map (\<lambda>c. JStr [c]) s)"
| "py_iter _ = Inl TypeError"

text \<open>\<^verbatim>\<open>str(n)\<close> for an integer: decimal digits, a minus sign when negative.\<close>

definition digit_char :: "nat \<Rightarrow> char" where
  "digit_char d = ''0123456789'' ! d"

fun digits_of :: "nat \<Rightarrow> string" where
  "digits_of n = (if n < 10 then [digit_char n] else digits_of (n div 10) @ [digit_char (n mod 10)])"

declare digits_of.simps [simp del]

definition str_int :: "int \<Rightarrow> string" where
  "str_int n = (if n < 0 then CHR ''-'' # digits_of (nat (- n)) else digits_of (nat n))"

text \<open>
  What an f-string writes for \<^verbatim>\<open>{v}\<close>. The text of a float, a list or a dict is Python's
  \<^verbatim>\<open>repr\<close>, which is not modelled: it is the parameter \<open>repr\<close>.
\<close>

definition py_str :: "(json \<Rightarrow> string) \<Rightarrow> json \<Rightarrow> string" where
  "py_str repr v =
     (case v of
        JStr s \<Rightarrow> s
      | JInt n \<Rightarrow> str_int n
      | JBool b \<Rightarrow> (if b then ''True'' else ''False'')
      | JNull \<Rightarrow> ''None''
      | _ \<Rightarrow> repr v)"

section \<open>config.py\<close>

definition BOOST_AMOUNTS :: "int list" where
  "BOOST_AMOUNTS = [500, 100]"

definition TARGET_CHAIN :: string where
  "TARGET_CHAIN = ''solana''"

definition BOOST_API_URL :: string where
  "BOOST_API_URL = ''https://api.dexscreener.com/token-boosts/latest/v1''"

section \<open>scanner.py: get_boosted_tokens\<close>

text \<open>
  What \<^verbatim>\<open>session.get(url, timeout=...)\<close> gives: it raises (connection error, timeout), or
  it returns a response with a status code and a body; the body is \<open>None\<close> when
  \<^verbatim>\<open>response.json()\<close> raises.
\<close>

datatype http_result = Transport_failure | Response nat "json option"

text \<open>\<^verbatim>\<open>response.raise_for_status()\<close> of the requests library raises for 4xx and 5xx.\<close>

definition raise_for_status :: "nat \<Rightarrow> bool" where
  "raise_for_status code = (400 \<le> code \<and> code < 600)"

text \<open>The three fields of the composite key, each with the default of its \<^verbatim>\<open>get\<close>.\<close>

definition boost_triple :: "json \<Rightarrow> pyerr + json \<times> json \<times> json" where
  "boost_triple boost =
     (case py_get boost ''tokenAddress'' (JStr '''') of
        Inl e \<Rightarrow> Inl e
      | Inr token_address \<Rightarrow>
          (case py_get boost ''amount'' (JInt 0) of
             Inl e \<Rightarrow> Inl e
           | Inr amount \<Rightarrow>
               (case py_get boost ''totalAmount'' (JInt 0) of
                  Inl e \<Rightarrow> Inl e
                | Inr total_amount \<Rightarrow> Inr (token_address, amount, total_amount))))"

text \<open>\<^verbatim>\<open>boost_id = f"{token_address}_{amount}_{total_amount}"\<close>\<close>

definition key_of_triple :: "(json \<Rightarrow> string) \<Rightarrow> json \<times> json \<times> json \<Rightarrow> string" where
  "key_of_triple repr t =
     (case t of (token_address, amount, total_amount) \<Rightarrow>
        py_str repr token_address @ ''_'' @ py_str repr amount @ ''_'' @ py_str repr total_amount)"

definition boost_id :: "(json \<Rightarrow> string) \<Rightarrow> json \<Rightarrow> pyerr + string" where
  "boost_id repr boost =
     (case boost_triple boost of Inl e \<Rightarrow> Inl e | Inr t \<Rightarrow> Inr (key_of_triple repr t))"

text \<open>\<^verbatim>\<open>boost.get('chainId', '').lower()\<close>\<close>

definition chain_id_of :: "json \<Rightarrow> pyerr + string" where
  "chain_id_of x = (case py_get x ''chainId'' (JStr '''') of Inl e \<Rightarrow> Inl e | Inr c \<Rightarrow> py_lower c)"

text \<open>
  The loop over the boosts (lines 51 to 67), with the list built so far and the cache
  \<^verbatim>\<open>self.seen_boost_ids\<close>. An exception leaves the loop; the identifiers added before it
  stay in the cache.
\<close>

fun boosts_loop ::
  "(json \<Rightarrow> string) \<Rightarrow> json list \<Rightarrow> json list \<Rightarrow> string set \<Rightarrow> (pyerr + json list) \<times> string set"
where
  "boosts_loop repr [] filtered_boosts seen = (Inr filtered_boosts, seen)"
| "boosts_loop repr (boost # rest) filtered_boosts seen =
     (case chain_id_of boost of
        Inl e \<Rightarrow> (Inl e, seen)
      | Inr chain_id \<Rightarrow>
          if chain_id \<noteq> TARGET_CHAIN then boosts_loop repr rest filtered_boosts seen
          else
            (case boost_id repr boost of
               Inl e \<Rightarrow> (Inl e, seen)
             | Inr bid \<Rightarrow>
                 if bid \<in> seen then boosts_loop repr rest filtered_boosts seen
                 else boosts_loop repr rest (filtered_boosts @ [boost]) (insert bid seen)))"

text \<open>
  The body of the \<^verbatim>\<open>try\<close>: \<open>Inl\<close> is an exception that reaches the handler. A body that is
  neither a list nor a dict with the key \<^verbatim>\<open>boosts\<close> is the early \<^verbatim>\<open>return []\<close>.
\<close>

definition get_boosted_tokens_try ::
  "(json \<Rightarrow> string) \<Rightarrow> http_result \<Rightarrow> string set \<Rightarrow> (pyerr + json list) \<times> string set"
where
  "get_boosted_tokens_try repr r seen =
     (case r of
        Transport_failure \<Rightarrow> (Inl RequestError, seen)
      | Response code body \<Rightarrow>
          if raise_for_status code then (Inl RequestError, seen)
          else
            (case body of
               None \<Rightarrow> (Inl ValueError, seen)
             | Some data \<Rightarrow>
                 (case data of
                    JList boosts \<Rightarrow> boosts_loop repr boosts [] seen
                  | JObj kv \<Rightarrow>
                      (case map_of kv ''boosts'' of
                         None \<Rightarrow> (Inr [], seen)
                       | Some v \<Rightarrow>
                           (case py_iter v of
                              Inl e \<Rightarrow> (Inl e, seen)
                            | Inr boosts \<Rightarrow> boosts_loop repr boosts [] seen))
                  | _ \<Rightarrow> (Inr [], seen))))"

text \<open>The method: the handler logs the exception and returns the empty list.\<close>

definition get_boosted_tokens ::
  "(json \<Rightarrow> string) \<Rightarrow> http_result \<Rightarrow> string set \<Rightarrow> json list \<times> string set"
where
  "get_boosted_tokens repr r seen =
     (case get_boosted_tokens_try repr r seen of
        (Inl e, seen') \<Rightarrow> ([], seen')
      | (Inr boosts, seen') \<Rightarrow> (boosts, seen'))"

text \<open>
  Notions used to state the properties of the method: the records of a payload that pass
  the chain test of line 54, the triple and the key of a record, and the records a list
  and a cache leave when every key is kept once (\<open>fresh\<close>).
\<close>

definition payload_records :: "http_result \<Rightarrow> json list" where
  "payload_records r =
     (case r of
        Response code (Some (JList boosts)) \<Rightarrow> boosts
      | Response code (Some (JObj kv)) \<Rightarrow>
          (case map_of kv ''boosts'' of Some (JList boosts) \<Rightarrow> boosts | _ \<Rightarrow> [])
      | _ \<Rightarrow> [])"

text \<open>
  A response whose payload is processed: a status that \<^verbatim>\<open>raise_for_status\<close> accepts and a
  body that is a list, or a dict whose \<^verbatim>\<open>boosts\<close> is a list.
\<close>

definition feed_ok :: "http_result \<Rightarrow> bool" where
  "feed_ok r =
     (case r of
        Response code (Some (JList boosts)) \<Rightarrow> \<not> raise_for_status code
      | Response code (Some (JObj kv)) \<Rightarrow>
          \<not> raise_for_status code \<and>
          (case map_of kv ''boosts'' of Some (JList boosts) \<Rightarrow> True | _ \<Rightarrow> False)
      | _ \<Rightarrow> False)"

definition target_records :: "json list \<Rightarrow> json list" where
  "target_records bs = filter (\<lambda>b. chain_id_of b = Inr TARGET_CHAIN) bs"

definition no_exception :: "json \<Rightarrow> bool" where
  "no_exception b = (case chain_id_of b of Inl e \<Rightarrow> False | Inr c \<Rightarrow> True)"

definition the_triple :: "json \<Rightarrow> json \<times> json \<times> json" where
  "the_triple boost =
     (case boost_triple boost of Inr t \<Rightarrow> t | Inl e \<Rightarrow> (JStr '''', JInt 0, JInt 0))"

definition boost_key :: "(json \<Rightarrow> string) \<Rightarrow> json \<Rightarrow> string" where
  "boost_key repr boost = key_of_triple repr (the_triple boost)"

fun typed_triple :: "json \<times> json \<times> json \<Rightarrow> bool" where
  "typed_triple (JStr a, JInt m, JInt t) = True"
| "typed_triple _ = False"

fun fresh :: "('a \<Rightarrow> 'k) \<Rightarrow> 'k set \<Rightarrow> 'a list \<Rightarrow> 'a list" where
  "fresh f S [] = []"
| "fresh f S (x # xs) = (if f x \<in> S then fresh f S xs else x # fresh f (insert (f x) S) xs)"

text \<open>What the handler makes of the outcome of the \<^verbatim>\<open>try\<close> body: the list the method returns.\<close>

definition returned :: "(pyerr + json list) \<times> string set \<Rightarrow> json list" where
  "returned p = (case fst p of Inl e \<Rightarrow> [] | Inr out \<Rightarrow> out)"

section \<open>scanner.py: get_token_details\<close>

text \<open>\<^verbatim>\<open>k in data\<close>, \<^verbatim>\<open>data[k]\<close> and \<^verbatim>\<open>len(v)\<close> for a string \<open>k\<close>.\<close>

fun is_substring :: "string \<Rightarrow> string \<Rightarrow> bool" where
  "is_substring k [] = (k = [])"
| "is_substring k (c # cs) = (take (length k) (c # cs) = k \<or> is_substring k cs)"

fun py_in :: "string \<Rightarrow> json \<Rightarrow> pyerr + bool" where
  "py_in k (JObj kv) = Inr (map_of kv k \<noteq> None)"
| "py_in k (JList xs) = Inr (JStr k \<in> set xs)"
| "py_in k (JStr s) = Inr (is_substring k s)"
| "py_in k _ = Inl TypeError"

fun py_item :: "json \<Rightarrow> string \<Rightarrow> pyerr + json" where
  "py_item (JObj kv) k = (case map_of kv k of None \<Rightarrow> Inl KeyError | Some v \<Rightarrow> Inr v)"
| "py_item _ k = Inl TypeError"

fun py_len :: "json \<Rightarrow> pyerr + nat" where
  "py_len (JList xs) = Inr (length xs)"
| "py_len (JObj kv) = Inr (length kv)"
| "py_len (JStr s) = Inr (length s)"
| "py_len _ = Inl TypeError"

text \<open>
  The comprehension of lines 97 to 100: the pairs whose lowered \<^verbatim>\<open>chainId\<close> is the target
  chain; the first pair that has no \<^verbatim>\<open>get\<close>, or whose \<^verbatim>\<open>chainId\<close> has no \<^verbatim>\<open>lower\<close>, raises.
\<close>

fun solana_pairs_of :: "json list \<Rightarrow> pyerr + json list" where
  "solana_pairs_of [] = Inr []"
| "solana_pairs_of (pair # rest) =
     (case chain_id_of pair of
        Inl e \<Rightarrow> Inl e
      | Inr c \<Rightarrow>
          (case solana_pairs_of rest of
             Inl e \<Rightarrow> Inl e
           | Inr ps \<Rightarrow> Inr (if c = TARGET_CHAIN then pair # ps else ps)))"

text \<open>
  The sort key \<^verbatim>\<open>float(x.get('liquidity', {}).get('usd', 0))\<close>. Python's \<^verbatim>\<open>float\<close> is the
  parameter \<open>pyfloat\<close>: the double it returns (NaN for the text \<^verbatim>\<open>"nan"\<close> and for the
  literal \<^verbatim>\<open>NaN\<close>), or the exception it raises.
\<close>

definition liquidity_key :: "(json \<Rightarrow> pyerr + double) \<Rightarrow> json \<Rightarrow> pyerr + double" where
  "liquidity_key pyfloat x =
     (case py_get x ''liquidity'' (JObj []) of
        Inl e \<Rightarrow> Inl e
      | Inr liquidity \<Rightarrow>
          (case py_get liquidity ''usd'' (JInt 0) of
             Inl e \<Rightarrow> Inl e
           | Inr usd \<Rightarrow> pyfloat usd))"

text \<open>\<^verbatim>\<open>list.sort\<close> computes the key of every element first, in order.\<close>

fun with_keys :: "(json \<Rightarrow> pyerr + double) \<Rightarrow> json list \<Rightarrow> pyerr + (double \<times> json) list" where
  "with_keys pyfloat [] = Inr []"
| "with_keys pyfloat (x # xs) =
     (case liquidity_key pyfloat x of
        Inl e \<Rightarrow> Inl e
      | Inr k \<Rightarrow>
          (case with_keys pyfloat xs of
             Inl e \<Rightarrow> Inl e
           | Inr kxs \<Rightarrow> Inr ((k, x) # kxs)))"

text \<open>
  \<^verbatim>\<open>sort(key=..., reverse=True)\<close> reverses the list, sorts it and reverses it again; it
  compares keys with \<^verbatim>\<open><\<close> only.
  \<^item> When no key is NaN the keys are totally ordered and the sort is the stable sort:
    elements with equal keys keep the order they had (\<open>sort_reverse\<close>).
  \<^item> When a key is NaN and the reversed list has no element whose key is \<^verbatim>\<open><\<close> the key of
    the element before it, the sort finds one ascending run and leaves the list as it is.
  \<^item> Otherwise the outcome depends on the merge strategy of the interpreter. The code only
    reads the first element of the sorted list: it is the element at the index that the
    parameter \<open>nan_first\<close> gives for the keys (taken modulo the length of the list).
\<close>

definition sort_reverse :: "(double \<times> json) list \<Rightarrow> json list" where
  "sort_reverse kxs = map snd (rev (sort_key (\<lambda>kx. rank (fst kx)) (rev kxs)))"

fun descends :: "double list \<Rightarrow> bool" where
  "descends (a # b # rest) = (lt_double b a \<or> descends (b # rest))"
| "descends ks = False"

definition first_after_sort :: "(double list \<Rightarrow> nat) \<Rightarrow> (double \<times> json) list \<Rightarrow> json" where
  "first_after_sort nan_first kxs =
     (if NaN \<notin> set (map fst kxs) then hd (sort_reverse kxs)
      else if \<not> descends (rev (map fst kxs)) then snd (hd kxs)
      else snd (kxs ! (nan_first (map fst kxs) mod length kxs)))"

text \<open>
  Lines 94 to 106, and again lines 112 to 124 for the second endpoint: the pair to return,
  \<open>Inr None\<close> when the code falls through, \<open>Inl\<close> when it raises.
\<close>

definition most_liquid_pair ::
  "(json \<Rightarrow> pyerr + double) \<Rightarrow> (double list \<Rightarrow> nat) \<Rightarrow> http_result \<Rightarrow> pyerr + json option"
where
  "most_liquid_pair pyfloat nan_first r =
     (case r of
        Transport_failure \<Rightarrow> Inl RequestError
      | Response code body \<Rightarrow>
          if code \<noteq> 200 then Inr None
          else
            (case body of
               None \<Rightarrow> Inl ValueError
             | Some data \<Rightarrow>
                 (case py_in ''pairs'' data of
                    Inl e \<Rightarrow> Inl e
                  | Inr False \<Rightarrow> Inr None
                  | Inr True \<Rightarrow>
                      (case py_item data ''pairs'' of
                         Inl e \<Rightarrow> Inl e
                       | Inr pairs \<Rightarrow>
                           (case py_len pairs of
                              Inl e \<Rightarrow> Inl e
                            | Inr n \<Rightarrow>
                                if \<not> n > 0 then Inr None
                                else
                                  (case py_iter pairs of
                                     Inl e \<Rightarrow> Inl e
                                   | Inr ps \<Rightarrow>
                                       (case solana_pairs_of ps of
                                          Inl e \<Rightarrow> Inl e
                                        | Inr solana_pairs \<Rightarrow>
                                            if solana_pairs = [] then Inr None
                                            else
                                              (case with_keys pyfloat solana_pairs of
                                                 Inl e \<Rightarrow> Inl e
                                               | Inr kxs \<Rightarrow>
                                                   Inr (Some (first_after_sort nan_first kxs))))))))))"

definition search_url :: "(json \<Rightarrow> string) \<Rightarrow> json \<Rightarrow> string" where
  "search_url repr token_address =
     ''https://api.dexscreener.com/latest/dex/search?q='' @ py_str repr token_address"

definition token_url :: "(json \<Rightarrow> string) \<Rightarrow> json \<Rightarrow> string" where
  "token_url repr token_address =
     ''https://api.dexscreener.com/latest/dex/tokens/'' @ py_str repr token_address"

text \<open>
  The method. \<open>get1\<close> and \<open>get2\<close> answer the first and the second \<^verbatim>\<open>session.get\<close> of the
  call. The result comes with the URLs the call has requested, in order.
\<close>

definition get_token_details ::
  "(json \<Rightarrow> string) \<Rightarrow> (json \<Rightarrow> pyerr + double) \<Rightarrow> (double list \<Rightarrow> nat) \<Rightarrow>
     (string \<Rightarrow> http_result) \<Rightarrow> (string \<Rightarrow> http_result) \<Rightarrow> json \<Rightarrow> json option \<times> string list"
where
  "get_token_details repr pyfloat nan_first get1 get2 token_address =
     (case most_liquid_pair pyfloat nan_first (get1 (search_url repr token_address)) of
        Inl e \<Rightarrow> (None, [search_url repr token_address])
      | Inr (Some pair) \<Rightarrow> (Some pair, [search_url repr token_address])
      | Inr None \<Rightarrow>
          (case most_liquid_pair pyfloat nan_first (get2 (token_url repr token_address)) of
             Inl e \<Rightarrow> (None, [search_url repr token_address, token_url repr token_address])
           | Inr found \<Rightarrow> (found, [search_url repr token_address, token_url repr token_address])))"

text \<open>
  Notions used to state the properties of the method: the target-chain pairs of a
  response, and an exchange that gives no body.
\<close>

definition target_pairs :: "http_result \<Rightarrow> json list" where
  "target_pairs r =
     (case r of
        Response code (Some (JObj kv)) \<Rightarrow>
          (if code = 200 then
             (case map_of kv ''pairs'' of
                Some (JList ps) \<Rightarrow> filter (\<lambda>p. chain_id_of p = Inr TARGET_CHAIN) ps
              | _ \<Rightarrow> [])
           else [])
      | _ \<Rightarrow> [])"

fun no_body :: "http_result \<Rightarrow> bool" where
  "no_body Transport_failure = True"
| "no_body (Response code None) = True"
| "no_body (Response code (Some data)) = False"

fun status_of :: "http_result \<Rightarrow> nat option" where
  "status_of Transport_failure = None"
| "status_of (Response code body) = Some code"

section \<open>scanner.py: cleanup_cache\<close>

text \<open>
  The slice \<^verbatim>\<open>xs[i:]\<close>: a negative \<open>i\<close> counts from the end, and the start is clamped to
  the list.
\<close>

definition py_slice_from :: "int \<Rightarrow> 'a list \<Rightarrow> 'a list" where
  "py_slice_from i xs =
     (let n = int (length xs);
          start = (if i < 0 then max (i + n) 0 else min i n)
      in drop (nat start) xs)"

text \<open>
  \<open>ids_list\<close> is what \<^verbatim>\<open>list(self.seen_boost_ids)\<close> gives: the identifiers of the cache, each
  once, in the iteration order of the set, which Python does not specify.
\<close>

definition cleanup_cache :: "string list \<Rightarrow> int \<Rightarrow> string set \<Rightarrow> string set" where
  "cleanup_cache ids_list max_size seen =
     (if int (card seen) > max_size then set (py_slice_from (- max_size) ids_list) else seen)"

section \<open>formatter.py\<close>

text \<open>
  The builtins of Python that the formatter and the bot call and that are not modelled.
  Each is a parameter, and every property below holds whatever they are:
  \<^item> \<open>py_repr v\<close>: the text \<^verbatim>\<open>str(v)\<close> of a float, a list or a dict;
  \<^item> \<open>py_float v\<close>: \<^verbatim>\<open>float(v)\<close>, the double or the exception raised;
  \<^item> \<open>py_percent l m\<close>: \<^verbatim>\<open>(l / m) * 100\<close> in double arithmetic;
  \<^item> \<open>py_elapsed v\<close>: the days and seconds of
    \<^verbatim>\<open>datetime.now() - datetime.fromtimestamp(v / 1000)\<close>, \<open>None\<close> when this raises;
  \<^item> \<open>py_exp_digits x\<close>: the number written after \<^verbatim>\<open>e-\<close> in \<^verbatim>\<open>str(x)\<close> for a float \<open>x\<close>,
    \<open>None\<close> when \<^verbatim>\<open>str(x)\<close> has no \<^verbatim>\<open>e-\<close> (the exponent of a float is written with digits
    only, so the number is a natural number);
  \<^item> \<open>py_list_gt xs ys\<close>: \<^verbatim>\<open>xs > ys\<close> for two lists;
  \<^item> \<open>py_capitalize s\<close>: \<^verbatim>\<open>s.capitalize()\<close>, which follows the Unicode tables;
  \<^item> \<open>py_nan_first ks\<close>: the index, before the sort, of the element that
    \<^verbatim>\<open>list.sort(reverse=True)\<close> puts first when the sort keys are \<open>ks\<close>, for the lists of
    keys with a NaN where the sort moves elements.
\<close>

record builtins =
  py_repr :: "json \<Rightarrow> string"
  py_float :: "json \<Rightarrow> pyerr + double"
  py_percent :: "double \<Rightarrow> double \<Rightarrow> double"
  py_elapsed :: "json \<Rightarrow> (int \<times> nat) option"
  py_exp_digits :: "double \<Rightarrow> nat option"
  py_list_gt :: "json list \<Rightarrow> json list \<Rightarrow> pyerr + bool"
  py_capitalize :: "string \<Rightarrow> string"
  py_nan_first :: "double list \<Rightarrow> nat"

text \<open>A statement that may raise, followed by the rest of the block.\<close>

definition bind_err :: "'e + 'a \<Rightarrow> ('a \<Rightarrow> 'e + 'b) \<Rightarrow> 'e + 'b" where
  "bind_err m f = (case m of Inl e \<Rightarrow> Inl e | Inr x \<Rightarrow> f x)"

text \<open>Truth value of a value in \<^verbatim>\<open>if v:\<close> and \<^verbatim>\<open>if not v:\<close>.\<close>

fun truthy :: "json \<Rightarrow> bool" where
  "truthy JNull = False"
| "truthy (JBool b) = b"
| "truthy (JInt n) = (n \<noteq> 0)"
| "truthy (JFloat d) = (d \<noteq> Fin 0 \<and> d \<noteq> NegZero)"
| "truthy (JStr s) = (s \<noteq> [])"
| "truthy (JList xs) = (xs \<noteq> [])"
| "truthy (JObj kv) = (kv \<noteq> [])"

text \<open>
  The numeric value of an int, a bool or a finite float: \<^verbatim>\<open>==\<close> compares these exactly, and
  an infinity or NaN is equal to no int.
\<close>

fun num_val :: "json \<Rightarrow> rat option" where
  "num_val (JInt n) = Some (of_int n)"
| "num_val (JFloat (Fin q)) = Some q"
| "num_val (JFloat NegZero) = Some 0"
| "num_val (JBool b) = Some (if b then 1 else 0)"
| "num_val _ = None"

text \<open>An int, a bool or a float as an operand of \<^verbatim>\<open><\<close> and \<^verbatim>\<open>>\<close>.\<close>

fun float_val :: "json \<Rightarrow> double option" where
  "float_val (JInt n) = Some (Fin (of_int n))"
| "float_val (JFloat d) = Some d"
| "float_val (JBool b) = Some (Fin (if b then 1 else 0))"
| "float_val _ = None"

text \<open>
  \<^verbatim>\<open>a > b\<close>: numbers by value, strings by code points (the order of their UTF-8 bytes),
  lists by the parameter; every other pair raises TypeError.
\<close>

definition py_gt :: "(json list \<Rightarrow> json list \<Rightarrow> pyerr + bool) \<Rightarrow> json \<Rightarrow> json \<Rightarrow> pyerr + bool" where
  "py_gt list_gt a b =
     (case (float_val a, float_val b) of
        (Some x, Some y) \<Rightarrow> Inr (lt_double y x)
      | _ \<Rightarrow>
          (case (a, b) of
             (JStr s, JStr t) \<Rightarrow> Inr (lexordp (\<lambda>c d. (of_char c :: nat) < of_char d) t s)
           | (JList xs, JList ys) \<Rightarrow> list_gt xs ys
           | _ \<Rightarrow> Inl TypeError))"

subsection \<open>Fixed-point formatting\<close>

text \<open>
  \<^verbatim>\<open>f"{x:.df}"\<close>: the decimal text of \<open>x\<close> with \<open>d\<close> digits after the point, correctly
  rounded from the exact value of the double, ties to even (\<open>fixed\<close>); the texts
  \<^verbatim>\<open>inf\<close>, \<^verbatim>\<open>-inf\<close> and \<^verbatim>\<open>nan\<close> for the other floats.
\<close>

definition round_half_even :: "rat \<Rightarrow> int" where
  "round_half_even q =
     (let f = \<lfloor>q\<rfloor>; r = q - of_int f
      in if r < 1 / 2 then f else if r > 1 / 2 then f + 1 else if even f then f else f + 1)"

definition zero_pad :: "nat \<Rightarrow> string \<Rightarrow> string" where
  "zero_pad d s = replicate (d - length s) (CHR ''0'') @ s"

definition fixed :: "nat \<Rightarrow> rat \<Rightarrow> string" where
  "fixed d x =
     (let n = nat (round_half_even (\<bar>x\<bar> * 10 ^ d))
      in digits_of (n div 10 ^ d) @
         (if d = 0 then '''' else ''.'' @ zero_pad d (digits_of (n mod 10 ^ d))))"

fun format_f :: "nat \<Rightarrow> double \<Rightarrow> string" where
  "format_f d (Fin x) = (if x < 0 then ''-'' else '''') @ fixed d x"
| "format_f d NegZero = ''-'' @ fixed d 0"
| "format_f d PInf = ''inf''"
| "format_f d MInf = ''-inf''"
| "format_f d NaN = ''nan''"

text \<open>\<^verbatim>\<open>f"{x:,.0f}"\<close>: no digits after the point, the digits before it in groups of three.\<close>

fun commas :: "string \<Rightarrow> string" where
  "commas (a # b # c # d # rest) = a # b # c # CHR '','' # commas (d # rest)"
| "commas ds = ds"

definition grouped :: "rat \<Rightarrow> string" where
  "grouped x = rev (commas (rev (digits_of (nat (round_half_even \<bar>x\<bar>)))))"

fun format_grouped :: "double \<Rightarrow> string" where
  "format_grouped (Fin x) = (if x < 0 then ''-'' else '''') @ grouped x"
| "format_grouped NegZero = ''-'' @ grouped 0"
| "format_grouped PInf = ''inf''"
| "format_grouped MInf = ''-inf''"
| "format_grouped NaN = ''nan''"

text \<open>\<^verbatim>\<open>s.rstrip(c)\<close> for one character, and \<^verbatim>\<open>s.replace("0.", "")\<close>.\<close>

definition py_rstrip :: "char \<Rightarrow> string \<Rightarrow> string" where
  "py_rstrip c s = rev (dropWhile (\<lambda>x. x = c) (rev s))"

fun remove_zero_dot :: "string \<Rightarrow> string" where
  "remove_zero_dot (a # b # cs) =
     (if a = CHR ''0'' \<and> b = CHR ''.'' then remove_zero_dot cs else a # remove_zero_dot (b # cs))"
| "remove_zero_dot cs = cs"

subsection \<open>format_price\<close>

text \<open>The doubles that the literals \<^verbatim>\<open>0.001\<close> and \<^verbatim>\<open>0.000001\<close> denote.\<close>

definition float_0_001 :: rat where
  "float_0_001 = 1152921504606847 / 1152921504606846976"

definition float_0_000001 :: rat where
  "float_0_000001 = 4722366482869645 / 4722366482869645213696"

text \<open>The text of the source literal for the subscript zero, as the file has it (UTF-8).\<close>

definition SUBSCRIPT_ZERO :: string where
  "SUBSCRIPT_ZERO = [CHR 0xC3, CHR 0xA2, CHR 0xE2, CHR 0x80, CHR 0x9A, CHR 0xE2, CHR 0x82, CHR 0xAC]"

text \<open>
  \<open>price_usd\<close> is the float (\<open>Fin 0\<close> also stands for the integer 0 that the caller passes
  when there is no token data: the two are formatted alike). In the branch of line 78 the
  product \<^verbatim>\<open>price_usd * (10 ** exp)\<close> of a finite float is taken exactly.
\<close>

fun times_pow10 :: "double \<Rightarrow> nat \<Rightarrow> double" where
  "times_pow10 (Fin x) n = Fin (x * 10 ^ n)"
| "times_pow10 d n = d"

definition format_price :: "(double \<Rightarrow> nat option) \<Rightarrow> double \<Rightarrow> string" where
  "format_price exp_digits price_usd =
     (if price_usd = Fin 0 \<or> price_usd = NegZero then ''$0.00''
      else if lt_double price_usd (Fin float_0_001) then
        (let price_str = py_rstrip (CHR ''.'') (py_rstrip (CHR ''0'') (''$'' @ format_f 8 price_usd))
         in if lt_double price_usd (Fin float_0_000001) then
              (let exp = (case exp_digits price_usd of Some n \<Rightarrow> - int n | None \<Rightarrow> 0)
               in if exp > 6 then
                    remove_zero_dot
                      (''$0.'' @ concat (replicate (nat (exp - 1)) SUBSCRIPT_ZERO) @
                       format_f (nat (min 6 exp)) (times_pow10 price_usd (nat exp)))
                  else price_str)
            else price_str)
      else if lt_double price_usd (Fin 1) then
        py_rstrip (CHR ''.'') (py_rstrip (CHR ''0'') (''$'' @ format_f 6 price_usd))
      else py_rstrip (CHR ''.'') (py_rstrip (CHR ''0'') (''$'' @ format_f 4 price_usd)))"

subsection \<open>format_age\<close>

definition format_age :: "(json \<Rightarrow> (int \<times> nat) option) \<Rightarrow> json \<Rightarrow> string" where
  "format_age elapsed pair_created_at =
     (if \<not> truthy pair_created_at then ''N/A''
      else
        (case elapsed pair_created_at of
           None \<Rightarrow> ''N/A''
         | Some (days, seconds) \<Rightarrow>
             (let hours = seconds div 3600;
                  minutes = (seconds mod 3600) div 60
              in if days > 0 then str_int days @ ''d '' @ str_int (int hours) @ ''h''
                 else if hours > 0 then str_int (int hours) @ ''h '' @ str_int (int minutes) @ ''m''
                 else if minutes > 0 then str_int (int minutes) @ ''m''
                 else ''<1m'')))"

subsection \<open>format_boost_message\<close>

text \<open>The texts of the source literals that are not ASCII, as the file has them (UTF-8).\<close>

definition LINK_SIGN :: string where
  "LINK_SIGN = [CHR 0xC3, CHR 0xB0, CHR 0xC5, CHR 0xB8, CHR 0xE2, CHR 0x80, CHR 0x9D, CHR 0xE2, CHR 0x80, CHR 0x94]"

definition BOLT_SIGN :: string where
  "BOLT_SIGN = [CHR 0xC3, CHR 0xA2, CHR 0xC5, CHR 0xA1, CHR 0xC2, CHR 0xA1]"

definition SIREN_SIGN :: string where
  "SIREN_SIGN = [CHR 0xC3, CHR 0xB0, CHR 0xC5, CHR 0xB8, CHR 0xC5, CHR 0xA1, CHR 0xC2, CHR 0xA8]"

definition CHART_SIGN :: string where
  "CHART_SIGN = [CHR 0xC3, CHR 0xB0, CHR 0xC5, CHR 0xB8, CHR 0xE2, CHR 0x80, CHR 0x9C, CHR 0xC5, CHR 0xA0]"

definition BULLET_SIGN :: string where
  "BULLET_SIGN = [CHR 0xC3, CHR 0xA2, CHR 0xE2, CHR 0x82, CHR 0xAC, CHR 0xC2, CHR 0xA2]"

definition TREND_SIGN :: string where
  "TREND_SIGN = [CHR 0xC3, CHR 0xB0, CHR 0xC5, CHR 0xB8, CHR 0xE2, CHR 0x80, CHR 0x9C, CHR 0xCB, CHR 0x86]"

definition NL :: string where
  "NL = [CHR 0x0A]"

definition PUMP_FUN :: string where
  "PUMP_FUN = ''Pump.fun '' @ LINK_SIGN @ '' SOL''"

definition RAYDIUM :: string where
  "RAYDIUM = ''Raydium '' @ LINK_SIGN @ '' SOL''"

text \<open>
  \<^verbatim>\<open>s.capitalize()\<close> of a string of ASCII characters (the example inputs below use it as
  their \<open>py_capitalize\<close>).
\<close>

definition upper_char :: "char \<Rightarrow> char" where
  "upper_char c =
     (case map_of (zip ''abcdefghijklmnopqrstuvwxyz'' ''ABCDEFGHIJKLMNOPQRSTUVWXYZ'') c of
        None \<Rightarrow> c
      | Some u \<Rightarrow> u)"

fun capitalize :: "string \<Rightarrow> string" where
  "capitalize [] = []"
| "capitalize (c # cs) = upper_char c # map lower_char cs"

text \<open>The local variables that the block of lines 172 to 189 assigns, and their defaults.\<close>

record market =
  token_name :: json
  token_symbol :: json
  price_usd :: double
  market_cap :: double
  liquidity_usd :: double
  age :: string
  buys_5m :: json
  sells_5m :: json
  buys_24h :: json
  sells_24h :: json

definition placeholders :: market where
  "placeholders =
     \<lparr>token_name = JStr ''N/A'', token_symbol = JStr ''N/A'', price_usd = Fin 0,
      market_cap = Fin 0, liquidity_usd = Fin 0, age = ''N/A'', buys_5m = JInt 0, sells_5m = JInt 0,
      buys_24h = JInt 0, sells_24h = JInt 0\<rparr>"

text \<open>\<^verbatim>\<open>d.get(k1, {}).get(k2, 0)\<close>\<close>

definition get_count :: "json \<Rightarrow> string \<Rightarrow> string \<Rightarrow> pyerr + json" where
  "get_count d k1 k2 = bind_err (py_get d k1 (JObj [])) (\<lambda>inner. py_get inner k2 (JInt 0))"

text \<open>\<^verbatim>\<open>float(d.get(k, 0))\<close>\<close>

definition get_float :: "builtins \<Rightarrow> json \<Rightarrow> string \<Rightarrow> pyerr + double" where
  "get_float py d k = bind_err (py_get d k (JInt 0)) (py_float py)"

definition read_token_data :: "builtins \<Rightarrow> json \<Rightarrow> pyerr + market" where
  "read_token_data py token_data =
     bind_err (py_get token_data ''baseToken'' (JObj [])) (\<lambda>base_token.
     bind_err (py_get base_token ''name'' (JStr ''N/A'')) (\<lambda>name.
     bind_err (py_get base_token ''symbol'' (JStr ''N/A'')) (\<lambda>symbol.
     bind_err (get_float py token_data ''priceUsd'') (\<lambda>price.
     bind_err (get_float py token_data ''marketCap'') (\<lambda>cap.
     bind_err (py_get token_data ''liquidity'' (JObj [])) (\<lambda>liquidity.
     bind_err (get_float py liquidity ''usd'') (\<lambda>liq.
     bind_err (py_get token_data ''txns'' (JObj [])) (\<lambda>txns.
     bind_err (get_count txns ''m5'' ''buys'') (\<lambda>b5.
     bind_err (get_count txns ''m5'' ''sells'') (\<lambda>s5.
     bind_err (get_count txns ''h24'' ''buys'') (\<lambda>b24.
     bind_err (get_count txns ''h24'' ''sells'') (\<lambda>s24.
     bind_err (py_get token_data ''pairCreatedAt'' JNull) (\<lambda>pair_created_at.
       Inr \<lparr>token_name = name, token_symbol = symbol, price_usd = price, market_cap = cap,
            liquidity_usd = liq, age = format_age (py_elapsed py) pair_created_at,
            buys_5m = b5, sells_5m = s5, buys_24h = b24, sells_24h = s24\<rparr>)))))))))))))"

text \<open>
  Lines 197 to 206. \<open>capitalize_str\<close> is \<^verbatim>\<open>str.capitalize\<close>: it is given the \<^verbatim>\<open>dexId\<close> with its
  ASCII letters lowered, and lowers every letter after the first itself.
\<close>

definition platform_of :: "(string \<Rightarrow> string) \<Rightarrow> json option \<Rightarrow> pyerr + string" where
  "platform_of capitalize_str token_data =
     (case token_data of
        None \<Rightarrow> Inr PUMP_FUN
      | Some d \<Rightarrow>
          if \<not> truthy d then Inr PUMP_FUN
          else
            bind_err (py_get d ''dexId'' (JStr '''')) (\<lambda>raw.
            bind_err (py_lower raw) (\<lambda>dex_id.
              Inr (if is_substring ''pump'' dex_id then PUMP_FUN
                   else if is_substring ''raydium'' dex_id then RAYDIUM
                   else capitalize_str dex_id))))"

text \<open>The f-string of lines 212 to 230.\<close>

definition message_text ::
  "(json \<Rightarrow> string) \<Rightarrow> string \<Rightarrow> market \<Rightarrow> json \<Rightarrow> string \<Rightarrow> string \<Rightarrow> double \<Rightarrow> string \<Rightarrow> string"
where
  "message_text repr boost_display m token_address platform price_str liquidity_percentage
      dexscreener_url =
     NL @ SIREN_SIGN @ '' **DETECTED Boost '' @ boost_display @ ''**'' @ NL @
     NL @ ''**Token:** '' @ py_str repr (token_name m) @ '' ($'' @ py_str repr (token_symbol m) @ '')'' @ NL @
     ''**CA:** '' @ [CHR 0x60] @ py_str repr token_address @ [CHR 0x60] @ NL @
     ''**Platform:** '' @ platform @ NL @
     NL @ CHART_SIGN @ '' **Market Data**'' @ NL @
     BULLET_SIGN @ '' **Age:** '' @ age m @ NL @
     BULLET_SIGN @ '' **Market Cap:** $'' @ format_grouped (market_cap m) @ NL @
     BULLET_SIGN @ '' **Price:** '' @ price_str @ NL @
     BULLET_SIGN @ '' **Liquidity:** $'' @ format_grouped (liquidity_usd m) @
       '' ('' @ format_f 1 liquidity_percentage @ ''%)'' @ NL @
     NL @ TREND_SIGN @ '' **Transactions**'' @ NL @
     BULLET_SIGN @ '' **5m:** '' @ py_str repr (buys_5m m) @ '' buys | '' @
       py_str repr (sells_5m m) @ '' sells'' @ NL @
     BULLET_SIGN @ '' **24h:** '' @ py_str repr (buys_24h m) @ '' buys | '' @
       py_str repr (sells_24h m) @ '' sells'' @ NL @
     NL @ LINK_SIGN @ '' [DexScreener]('' @ dexscreener_url @ '')'' @ NL"

text \<open>The body of the \<^verbatim>\<open>try\<close> of \<^verbatim>\<open>format_boost_message\<close> (lines 158 to 232).\<close>

definition format_boost_message_try :: "builtins \<Rightarrow> json \<Rightarrow> json option \<Rightarrow> pyerr + string" where
  "format_boost_message_try py boost_data token_data =
     bind_err (py_get boost_data ''tokenAddress'' (JStr ''Unknown'')) (\<lambda>token_address.
     bind_err (py_get boost_data ''amount'' (JInt 0)) (\<lambda>amount.
     bind_err (py_get boost_data ''totalAmount'' amount) (\<lambda>total_amount.
     bind_err (case token_data of
                 None \<Rightarrow> Inr placeholders
               | Some d \<Rightarrow> if truthy d then read_token_data py d else Inr placeholders) (\<lambda>m.
     bind_err (platform_of (py_capitalize py) token_data) (\<lambda>platform.
     bind_err (py_gt (py_list_gt py) total_amount amount) (\<lambda>bigger.
       Inr (message_text (py_repr py)
              (if bigger
               then py_str (py_repr py) amount @ BOLT_SIGN @ '' (Total: '' @
                    py_str (py_repr py) total_amount @ BOLT_SIGN @ '')''
               else py_str (py_repr py) amount @ BOLT_SIGN)
              m token_address platform
              (format_price (py_exp_digits py) (price_usd m))
              (if lt_double (Fin 0) (market_cap m) \<and> lt_double (Fin 0) (liquidity_usd m)
               then py_percent py (liquidity_usd m) (market_cap m) else Fin 0)
              (''https://dexscreener.com/'' @ TARGET_CHAIN @ ''/'' @
               py_str (py_repr py) token_address))))))))"

text \<open>The method: the handler logs the exception and returns \<^verbatim>\<open>None\<close>.\<close>

definition format_boost_message :: "builtins \<Rightarrow> json \<Rightarrow> json option \<Rightarrow> string option" where
  "format_boost_message py boost_data token_data =
     (case format_boost_message_try py boost_data token_data of
        Inl e \<Rightarrow> None
      | Inr message \<Rightarrow> Some message)"

section \<open>bot.py\<close>

text \<open>
  What is outside the program: the builtins, the answer of the \<open>n\<close>-th HTTP request of
  the process to a URL, and whether the \<open>n\<close>-th \<^verbatim>\<open>bot.send_message\<close> of the process
  delivers a text (\<open>False\<close> when it raises).
\<close>

record world =
  py :: builtins
  http :: "nat \<Rightarrow> string \<Rightarrow> http_result"
  telegram :: "nat \<Rightarrow> string \<Rightarrow> bool"

text \<open>
  The state of the bot: the cache of the scanner and the statistics, and what the bot has
  done so far: the URLs it has requested, the texts it has handed to \<^verbatim>\<open>send_message\<close> with
  the outcome, and the exceptions that the handler of \<^verbatim>\<open>process_boost\<close> has logged.
\<close>

record bot =
  seen_boost_ids :: "string set"
  boost_stats :: "int \<Rightarrow> int option"
  requested :: "string list"
  sent :: "(string \<times> bool) list"
  logged :: "pyerr list"

text \<open>\<^verbatim>\<open>__init__\<close>: \<^verbatim>\<open>self.boost_stats = {amount: 0 for amount in BOOST_AMOUNTS}\<close>\<close>

definition init_bot :: bot where
  "init_bot =
     \<lparr>seen_boost_ids = {}, boost_stats = map_of (map (\<lambda>amount. (amount, 0)) BOOST_AMOUNTS),
      requested = [], sent = [], logged = []\<rparr>"

text \<open>\<^verbatim>\<open>amount in BOOST_AMOUNTS\<close> compares with \<^verbatim>\<open>==\<close>: a number equals an integer by value.\<close>

definition check_boost_criteria :: "json \<Rightarrow> pyerr + bool" where
  "check_boost_criteria boost_data =
     bind_err (py_get boost_data ''amount'' (JInt 0)) (\<lambda>amount.
       Inr (list_ex (\<lambda>target. num_val amount = Some (of_int target)) BOOST_AMOUNTS))"

text \<open>
  \<^verbatim>\<open>self.boost_stats[amount] += 1\<close> on a dict whose keys are integers: a list or a dict is
  not hashable (TypeError), a value equal to no key is a KeyError.
\<close>

definition increment_stat :: "(int \<Rightarrow> int option) \<Rightarrow> json \<Rightarrow> pyerr + (int \<Rightarrow> int option)" where
  "increment_stat stats amount =
     (case amount of
        JList xs \<Rightarrow> Inl TypeError
      | JObj kv \<Rightarrow> Inl TypeError
      | _ \<Rightarrow>
          (case num_val amount of
             None \<Rightarrow> Inl KeyError
           | Some q \<Rightarrow>
               if of_int \<lfloor>q\<rfloor> \<noteq> q then Inl KeyError
               else
                 (case stats \<lfloor>q\<rfloor> of
                    None \<Rightarrow> Inl KeyError
                  | Some n \<Rightarrow> Inr (stats(\<lfloor>q\<rfloor> \<mapsto> n + 1)))))"

text \<open>\<^verbatim>\<open>send_alert\<close>: \<^verbatim>\<open>True\<close> when \<^verbatim>\<open>send_message\<close> returns, \<^verbatim>\<open>False\<close> when it raises.\<close>

definition send_alert :: "world \<Rightarrow> string \<Rightarrow> bot \<Rightarrow> bool \<times> bot" where
  "send_alert w message s =
     (let success = telegram w (length (sent s)) message
      in (success, s\<lparr>sent := sent s @ [(message, success)]\<rparr>))"

text \<open>The token lookup of line 137, with the requests it makes added to the state.\<close>

definition lookup_token :: "world \<Rightarrow> json \<Rightarrow> bot \<Rightarrow> json option \<times> bot" where
  "lookup_token w token_address s =
     (case get_token_details (py_repr (py w)) (py_float (py w)) (py_nan_first (py w))
             (http w (length (requested s))) (http w (length (requested s) + 1)) token_address of
        (token_data, urls) \<Rightarrow> (token_data, s\<lparr>requested := requested s @ urls\<rparr>))"

text \<open>The body of the \<^verbatim>\<open>try\<close> of \<^verbatim>\<open>process_boost\<close> (lines 131 to 154).\<close>

definition process_boost_try :: "world \<Rightarrow> json \<Rightarrow> bot \<Rightarrow> (pyerr + bool) \<times> bot" where
  "process_boost_try w boost s =
     (case py_get boost ''tokenAddress'' JNull of
        Inl e \<Rightarrow> (Inl e, s)
      | Inr token_address \<Rightarrow>
          (case py_get boost ''amount'' (JInt 0) of
             Inl e \<Rightarrow> (Inl e, s)
           | Inr amount \<Rightarrow>
               (case lookup_token w token_address s of
                  (token_data, s1) \<Rightarrow>
                    (case format_boost_message (py w) boost token_data of
                       None \<Rightarrow> (Inr False, s1)
                     | Some message \<Rightarrow>
                         if message = [] then (Inr False, s1)
                         else
                           (case send_alert w message s1 of
                              (success, s2) \<Rightarrow>
                                if success then
                                  (case increment_stat (boost_stats s2) amount of
                                     Inl e \<Rightarrow> (Inl e, s2)
                                   | Inr stats \<Rightarrow> (Inr True, s2\<lparr>boost_stats := stats\<rparr>))
                                else (Inr False, s2))))))"

text \<open>The method: the handler logs the exception and returns \<^verbatim>\<open>False\<close>.\<close>

definition process_boost :: "world \<Rightarrow> json \<Rightarrow> bot \<Rightarrow> bool \<times> bot" where
  "process_boost w boost s =
     (case process_boost_try w boost s of
        (Inl e, s') \<Rightarrow> (False, s'\<lparr>logged := logged s' @ [e]\<rparr>)
      | (Inr success, s') \<Rightarrow> (success, s'))"

text \<open>The comprehension of line 179: the first boost whose test raises ends it.\<close>

fun target_boosts_of :: "json list \<Rightarrow> pyerr + json list" where
  "target_boosts_of [] = Inr []"
| "target_boosts_of (b # bs) =
     bind_err (check_boost_criteria b) (\<lambda>keep.
     bind_err (target_boosts_of bs) (\<lambda>rest. Inr (if keep then b # rest else rest)))"

text \<open>The loop of lines 188 to 193.\<close>

fun process_loop :: "world \<Rightarrow> json list \<Rightarrow> int \<Rightarrow> bot \<Rightarrow> int \<times> bot" where
  "process_loop w [] processed_count s = (processed_count, s)"
| "process_loop w (boost # rest) processed_count s =
     (case process_boost w boost s of
        (success, s') \<Rightarrow>
          process_loop w rest (if success then processed_count + 1 else processed_count) s')"

text \<open>Lines 174 to 195: what \<^verbatim>\<open>scan_and_process\<close> does with the boosts the scanner returns.\<close>

definition process_new_boosts :: "world \<Rightarrow> json list \<Rightarrow> bot \<Rightarrow> (pyerr + int) \<times> bot" where
  "process_new_boosts w boosts s =
     (if boosts = [] then (Inr 0, s)
      else
        (case target_boosts_of boosts of
           Inl e \<Rightarrow> (Inl e, s)
         | Inr target_boosts \<Rightarrow>
             if target_boosts = [] then (Inr 0, s)
             else (case process_loop w target_boosts 0 s of (n, s') \<Rightarrow> (Inr n, s'))))"

text \<open>The method; \<open>Inl\<close> is an exception that leaves it.\<close>

definition scan_and_process :: "world \<Rightarrow> bot \<Rightarrow> (pyerr + int) \<times> bot" where
  "scan_and_process w s =
     (case get_boosted_tokens (py_repr (py w)) (http w (length (requested s)) BOOST_API_URL)
             (seen_boost_ids s) of
        (boosts, seen) \<Rightarrow>
          process_new_boosts w boosts
            (s\<lparr>seen_boost_ids := seen, requested := requested s @ [BOOST_API_URL]\<rparr>))"

text \<open>Notions used to state the properties of the bot.\<close>

definition amount_of :: "json \<Rightarrow> json" where
  "amount_of boost = (case py_get boost ''amount'' (JInt 0) of Inr amount \<Rightarrow> amount | Inl e \<Rightarrow> JNull)"

definition is_target_amount :: "json \<Rightarrow> bool" where
  "is_target_amount boost = (check_boost_criteria boost = Inr True)"

text \<open>
  The notion of the specification, in its words: the amount of the boost is in the
  configured set of target amounts, that is, it is equal to one of the integers of
  \<^verbatim>\<open>BOOST_AMOUNTS\<close> (a float is equal to an integer when they have the same value). And the
  total amount that \<^verbatim>\<open>format_boost_message\<close> reads from a boost, and the address that
  \<^verbatim>\<open>process_boost\<close> looks up for it.
\<close>

definition amount_in_target_set :: "json \<Rightarrow> bool" where
  "amount_in_target_set boost =
     (\<exists>target\<in>set BOOST_AMOUNTS. num_val (amount_of boost) = Some (of_int target))"

definition total_amount_of :: "json \<Rightarrow> json" where
  "total_amount_of boost =
     (case py_get boost ''totalAmount'' (amount_of boost) of
        Inr total_amount \<Rightarrow> total_amount
      | Inl e \<Rightarrow> JNull)"

definition address_of :: "json \<Rightarrow> json" where
  "address_of boost =
     (case py_get boost ''tokenAddress'' JNull of Inr token_address \<Rightarrow> token_address | Inl e \<Rightarrow> JNull)"

definition delivered :: "bot \<Rightarrow> nat" where
  "delivered s = length (filter snd (sent s))"

text \<open>The text that \<^verbatim>\<open>process_boost\<close> formats for a boost in a state, \<open>None\<close> when it has none.\<close>

definition rendered :: "world \<Rightarrow> json \<Rightarrow> bot \<Rightarrow> string option" where
  "rendered w boost s =
     (case py_get boost ''tokenAddress'' JNull of
        Inl e \<Rightarrow> None
      | Inr token_address \<Rightarrow>
          format_boost_message (py w) boost (fst (lookup_token w token_address s)))"

text \<open>The state in which \<^verbatim>\<open>scan_and_process\<close> starts to process the boosts it has fetched.\<close>

definition after_fetch :: "world \<Rightarrow> bot \<Rightarrow> json list \<times> bot" where
  "after_fetch w s =
     (case get_boosted_tokens (py_repr (py w)) (http w (length (requested s)) BOOST_API_URL)
             (seen_boost_ids s) of
        (boosts, seen) \<Rightarrow>
          (boosts, s\<lparr>seen_boost_ids := seen, requested := requested s @ [BOOST_API_URL]\<rparr>))"

section \<open>Example inputs\<close>

text \<open>
  Records of a feed: two on the target chain with the same triple (they differ in the
  \<^verbatim>\<open>url\<close> field), one on another chain, one more on the target chain, and one whose amount
  is the string \<^verbatim>\<open>"500"\<close>.
\<close>

definition no_repr :: "json \<Rightarrow> string" where
  "no_repr v = ''''"

definition rec_a :: json where
  "rec_a = JObj [(''chainId'', JStr ''Solana''), (''tokenAddress'', JStr ''So1abc''),
                 (''amount'', JInt 500), (''totalAmount'', JInt 1500)]"

definition rec_b :: json where
  "rec_b = JObj [(''url'', JStr ''https://dexscreener.com/solana/so1abc''),
                 (''chainId'', JStr ''solana''), (''tokenAddress'', JStr ''So1abc''),
                 (''amount'', JInt 500), (''totalAmount'', JInt 1500)]"

definition rec_eth :: json where
  "rec_eth = JObj [(''chainId'', JStr ''ethereum''), (''tokenAddress'', JStr ''0xabc''),
                   (''amount'', JInt 100), (''totalAmount'', JInt 100)]"

definition rec_c :: json where
  "rec_c = JObj [(''chainId'', JStr ''solana''), (''tokenAddress'', JStr ''So2xyz''),
                 (''amount'', JInt 100), (''totalAmount'', JInt 100)]"

definition rec_str :: json where
  "rec_str = JObj [(''chainId'', JStr ''solana''), (''tokenAddress'', JStr ''So1abc''),
                   (''amount'', JStr ''500''), (''totalAmount'', JInt 1500)]"

text \<open>
  Pairs of a token lookup: one on another chain with the largest liquidity, and two on the
  target chain. \<open>float_of_number\<close> is \<^verbatim>\<open>float\<close> on a float, on a bool, on an integer that a
  double holds exactly, and on \<^verbatim>\<open>None\<close>, a list and a dict, for which it raises TypeError;
  on a string that is not the text of a number it raises ValueError (the examples hold no
  other string).
\<close>

fun float_of_number :: "json \<Rightarrow> pyerr + double" where
  "float_of_number (JInt n) = Inr (Fin (of_int n))"
| "float_of_number (JFloat d) = Inr d"
| "float_of_number (JBool b) = Inr (Fin (if b then 1 else 0))"
| "float_of_number (JStr s) = Inl ValueError"
| "float_of_number v = Inl TypeError"

definition pair_eth :: json where
  "pair_eth = JObj [(''chainId'', JStr ''ethereum''), (''dexId'', JStr ''uniswap''),
                    (''liquidity'', JObj [(''usd'', JInt 900000)])]"

definition pair_low :: json where
  "pair_low = JObj [(''chainId'', JStr ''solana''), (''dexId'', JStr ''orca''),
                    (''liquidity'', JObj [(''usd'', JFloat (Fin (25001 / 2)))])]"

definition pair_high :: json where
  "pair_high = JObj [(''chainId'', JStr ''Solana''), (''dexId'', JStr ''raydium''),
                     (''marketCap'', JInt 500000), (''liquidity'', JObj [(''usd'', JInt 50000)])]"

definition pairs_body :: json where
  "pairs_body = JObj [(''schemaVersion'', JStr ''1.0.0''), (''pairs'', JList [pair_eth, pair_low, pair_high])]"

text \<open>
  Three pairs on the target chain whose USD liquidities are 10, NaN (the JSON literal
  \<^verbatim>\<open>NaN\<close>, which \<^verbatim>\<open>response.json()\<close> reads) and 50.
\<close>

definition pair_ten :: json where
  "pair_ten = JObj [(''chainId'', JStr ''solana''), (''dexId'', JStr ''orca''),
                    (''liquidity'', JObj [(''usd'', JInt 10)])]"

definition pair_nan :: json where
  "pair_nan = JObj [(''chainId'', JStr ''solana''), (''dexId'', JStr ''meteora''),
                    (''liquidity'', JObj [(''usd'', JFloat NaN)])]"

definition pair_fifty :: json where
  "pair_fifty = JObj [(''chainId'', JStr ''solana''), (''dexId'', JStr ''raydium''),
                      (''liquidity'', JObj [(''usd'', JInt 50)])]"

definition nan_body :: json where
  "nan_body = JObj [(''pairs'', JList [pair_ten, pair_nan, pair_fifty])]"

text \<open>
  Builtins and worlds for the examples. \<open>percent_of\<close> takes \<^verbatim>\<open>(l / m) * 100\<close> of two finite
  floats exactly; on the market data of the examples (50000 and 500000) Python's result
  is the same float, 10.0.
\<close>

fun percent_of :: "double \<Rightarrow> double \<Rightarrow> double" where
  "percent_of (Fin l) (Fin m) = Fin (l / m * 100)"
| "percent_of l m = NaN"

definition plain_builtins :: builtins where
  "plain_builtins =
     \<lparr>py_repr = no_repr, py_float = float_of_number, py_percent = percent_of,
      py_elapsed = (\<lambda>v. None), py_exp_digits = (\<lambda>x. None),
      py_list_gt = (\<lambda>xs ys. Inl TypeError), py_capitalize = capitalize,
      py_nan_first = (\<lambda>ks. 0)\<rparr>"

text \<open>
  A world in which every token lookup fails in transport and every message is delivered,
  and a world in which the feed answers with three records, the lookups find the pairs of
  the example and only the first message is delivered.
\<close>

definition world_down :: world where
  "world_down = \<lparr>py = plain_builtins, http = (\<lambda>n url. Transport_failure), telegram = (\<lambda>n text. True)\<rparr>"

definition world_up :: world where
  "world_up =
     \<lparr>py = plain_builtins,
      http = (\<lambda>n url. if url = BOOST_API_URL then Response 200 (Some (JList [rec_eth, rec_a, rec_c]))
                       else Response 200 (Some pairs_body)),
      telegram = (\<lambda>n text. n = 0)\<rparr>"

text \<open>A target-chain record whose amount is not a target amount, and a feed of that record.\<close>

definition rec_42 :: json where
  "rec_42 = JObj [(''chainId'', JStr ''solana''), (''tokenAddress'', JStr ''So3qrs''),
                  (''amount'', JInt 42), (''totalAmount'', JInt 42)]"

definition world_42 :: world where
  "world_42 =
     \<lparr>py = plain_builtins, http = (\<lambda>n url. Response 200 (Some (JList [rec_42]))),
      telegram = (\<lambda>n text. True)\<rparr>"

text \<open>
  The doubles that the literals \<^verbatim>\<open>1234.56789\<close>, \<^verbatim>\<open>0.123456789\<close> and \<^verbatim>\<open>0.0000001234\<close> denote
  (\<^verbatim>\<open>float.as_integer_ratio\<close>).
\<close>

definition float_1234_56789 :: rat where
  "float_1234_56789 = 5429687001335527 / 4398046511104"

definition float_0_123456789 :: rat where
  "float_0_123456789 = 8895999182988127 / 72057594037927936"

definition float_0_0000001234 :: rat where
  "float_0_0000001234 = 2330960095944457 / 18889465931478580854784"

section \<open>Properties of get_boosted_tokens\<close>

text \<open>The definitions that evaluate the examples.\<close>

lemmas ex_defs = rec_a_def rec_b_def rec_eth_def rec_c_def rec_str_def no_repr_def
lemmas scan_defs = get_boosted_tokens_def get_boosted_tokens_try_def raise_for_status_def
  chain_id_of_def TARGET_CHAIN_def lower_char_def boost_id_def boost_triple_def key_of_triple_def
  py_str_def str_int_def digits_of.simps digit_char_def

lemma chain_id_of_dict: "chain_id_of b = Inr c \<Longrightarrow> \<exists>kv. b = JObj kv"
  by (cases b) (simp_all add: chain_id_of_def)

lemma boost_id_dict: "chain_id_of b = Inr c \<Longrightarrow> boost_id R b = Inr (boost_key R b)"
  by (auto dest!: chain_id_of_dict simp: boost_id_def boost_key_def the_triple_def boost_triple_def)

lemma boosts_loop_sound:
  "boosts_loop R bs acc seen = (Inr out, seen') \<Longrightarrow>
   \<exists>new. out = acc @ new \<and> subseq new bs \<and> (\<forall>b\<in>set new. chain_id_of b = Inr TARGET_CHAIN)"
proof (induction bs arbitrary: acc seen)
  case Nil
  then show ?case by simp
next
  case (Cons b bs)
  show ?case
  proof (cases "chain_id_of b")
    case (Inl e)
    with Cons.prems show ?thesis by simp
  next
    case (Inr c)
    show ?thesis
    proof (cases "c = TARGET_CHAIN \<and> boost_key R b \<notin> seen")
      case False
      with Cons.prems Inr have "boosts_loop R bs acc seen = (Inr out, seen')"
        by (auto simp: boost_id_dict split: if_splits)
      from Cons.IH[OF this] show ?thesis by (auto intro: subseq_Cons')
    next
      case True
      with Cons.prems Inr have "boosts_loop R bs (acc @ [b]) (insert (boost_key R b) seen) = (Inr out, seen')"
        by (auto simp: boost_id_dict)
      from Cons.IH[OF this] obtain new where
        "out = (acc @ [b]) @ new" "subseq new bs" "\<forall>x\<in>set new. chain_id_of x = Inr TARGET_CHAIN"
        by blast
      with True Inr show ?thesis
        by (intro exI[of _ "b # new"]) auto
    qed
  qed
qed

lemma get_boosted_tokens_returned:
  "fst (get_boosted_tokens R r seen) = returned (get_boosted_tokens_try R r seen)"
  by (simp add: get_boosted_tokens_def returned_def split: prod.splits sum.splits)

lemma loop_returned:
  "subseq (returned (boosts_loop R bs [] seen)) bs \<and>
   (\<forall>b\<in>set (returned (boosts_loop R bs [] seen)). chain_id_of b = Inr TARGET_CHAIN)"
proof (cases "boosts_loop R bs [] seen")
  case (Pair res seen')
  show ?thesis
  proof (cases res)
    case (Inl e)
    with Pair show ?thesis by (simp add: returned_def)
  next
    case (Inr out)
    with Pair boosts_loop_sound[of R bs "[]" seen out seen'] show ?thesis
      by (auto simp: returned_def)
  qed
qed

lemma loop_no_dicts:
  assumes "\<forall>b\<in>set bs. chain_id_of b \<noteq> Inr TARGET_CHAIN"
  shows "returned (boosts_loop R bs [] seen) = []"
proof -
  from loop_returned[of R bs seen]
  have s: "subseq (returned (boosts_loop R bs [] seen)) bs"
    and t: "\<forall>b\<in>set (returned (boosts_loop R bs [] seen)). chain_id_of b = Inr TARGET_CHAIN"
    by simp_all
  from s have "set (returned (boosts_loop R bs [] seen)) \<subseteq> set bs"
    by (auto dest: list_emb_set)
  with t assms show ?thesis by (cases "returned (boosts_loop R bs [] seen)") auto
qed

lemma try_returned:
  "subseq (returned (get_boosted_tokens_try R r seen)) (payload_records r) \<and>
   (\<forall>b\<in>set (returned (get_boosted_tokens_try R r seen)). chain_id_of b = Inr TARGET_CHAIN)"
proof (cases r)
  case Transport_failure
  then show ?thesis by (simp add: get_boosted_tokens_try_def returned_def)
next
  case (Response code body)
  show ?thesis
  proof (cases "raise_for_status code \<or> body = None")
    case True
    with Response show ?thesis
      by (auto simp: get_boosted_tokens_try_def returned_def)
  next
    case False
    then obtain data where body: "body = Some data" and ok: "\<not> raise_for_status code" by auto
    show ?thesis
    proof (cases data)
      case (JList bs)
      with Response body ok loop_returned[of R bs seen] show ?thesis
        by (simp add: get_boosted_tokens_try_def payload_records_def)
    next
      case (JObj kv)
      show ?thesis
      proof (cases "map_of kv ''boosts''")
        case None
        with Response body ok JObj show ?thesis
          by (simp add: get_boosted_tokens_try_def returned_def)
      next
        case (Some v)
        show ?thesis
        proof (cases v)
          case (JList bs)
          with Response body ok JObj Some loop_returned[of R bs seen] show ?thesis
            by (simp add: get_boosted_tokens_try_def payload_records_def)
        next
          case (JObj kv')
          have "returned (boosts_loop R (map (\<lambda>(k, v). JStr k) kv') [] seen) = []"
            by (rule loop_no_dicts) (auto simp: chain_id_of_def)
          with Response body ok \<open>data = JObj kv\<close> Some JObj show ?thesis
            by (simp add: get_boosted_tokens_try_def)
        next
          case (JStr s)
          have "returned (boosts_loop R (map (\<lambda>c. JStr [c]) s) [] seen) = []"
            by (rule loop_no_dicts) (auto simp: chain_id_of_def)
          with Response body ok \<open>data = JObj kv\<close> Some JStr show ?thesis
            by (simp add: get_boosted_tokens_try_def)
        qed (use Response body ok \<open>data = JObj kv\<close> Some in
              \<open>simp_all add: get_boosted_tokens_try_def returned_def\<close>)
      qed
    qed (use Response body ok in \<open>simp_all add: get_boosted_tokens_try_def returned_def\<close>)
  qed
qed

text \<open>
  Claim C9. Every record that \<^verbatim>\<open>get_boosted_tokens\<close> returns passes the chain test (its
  lowered \<^verbatim>\<open>chainId\<close> is the target chain), so a record of another chain is never returned,
  and the returned list is a subsequence of the records of the payload: the records keep
  the order they have upstream. This holds for every response and every cache.
\<close>

theorem chain_filter_and_order:
  "(\<forall>b\<in>set (fst (get_boosted_tokens repr r seen)). chain_id_of b = Inr TARGET_CHAIN) \<and>
   subseq (fst (get_boosted_tokens repr r seen)) (payload_records r)"
  using try_returned[of repr r seen] by (simp add: get_boosted_tokens_returned)

theorem chain_filter_and_order_witness:
  "fst (get_boosted_tokens no_repr (Response 200 (Some (JList [rec_eth, rec_c, rec_a]))) {}) = [rec_c, rec_a] \<and>
   chain_id_of rec_c = Inr TARGET_CHAIN \<and> chain_id_of rec_a = Inr TARGET_CHAIN \<and>
   chain_id_of rec_eth = Inr ''ethereum'' \<and>
   subseq [rec_c, rec_a] [rec_eth, rec_c, rec_a]"
proof -
  have v: "fst (get_boosted_tokens no_repr (Response 200 (Some (JList [rec_eth, rec_c, rec_a]))) {}) = [rec_c, rec_a]"
    by (simp add: scan_defs ex_defs)
  from chain_filter_and_order[of no_repr "Response 200 (Some (JList [rec_eth, rec_c, rec_a]))" "{}"]
  show ?thesis
    unfolding v by (simp add: payload_records_def) (simp add: scan_defs ex_defs)
qed

lemma boosts_loop_complete:
  "\<forall>b\<in>set bs. no_exception b \<Longrightarrow>
   boosts_loop R bs acc seen =
     (Inr (acc @ fresh (boost_key R) seen (target_records bs)),
      seen \<union> boost_key R ` set (target_records bs))"
proof (induction bs arbitrary: acc seen)
  case Nil
  then show ?case by (simp add: target_records_def)
next
  case (Cons b bs)
  from Cons.prems obtain c where c: "chain_id_of b = Inr c"
    by (auto simp: no_exception_def split: sum.splits)
  from Cons.prems have rest: "\<forall>x\<in>set bs. no_exception x" by simp
  show ?case
    using c Cons.IH[OF rest]
    by (auto simp: target_records_def boost_id_dict)
qed

lemma feed_ok_shape:
  assumes "feed_ok r"
  shows "\<exists>code data bs. r = Response code (Some data) \<and> \<not> raise_for_status code \<and>
           payload_records r = bs \<and>
           (data = JList bs \<or> (\<exists>kv. data = JObj kv \<and> map_of kv ''boosts'' = Some (JList bs)))"
proof (cases r)
  case Transport_failure
  with assms show ?thesis by (simp add: feed_ok_def)
next
  case (Response code body)
  show ?thesis
  proof (cases body)
    case None
    with assms Response show ?thesis by (simp add: feed_ok_def)
  next
    case (Some data)
    show ?thesis
    proof (cases data)
      case (JList bs)
      with assms Response Some show ?thesis by (simp add: feed_ok_def payload_records_def)
    next
      case (JObj kv)
      with assms Response Some show ?thesis
        by (simp add: feed_ok_def payload_records_def split: option.splits json.splits)
    qed (use assms Response Some in \<open>simp_all add: feed_ok_def\<close>)
  qed
qed

lemma get_boosted_tokens_payload:
  assumes "feed_ok r" and "\<forall>b\<in>set (payload_records r). no_exception b"
  shows "get_boosted_tokens R r seen =
           (fresh (boost_key R) seen (target_records (payload_records r)),
            seen \<union> boost_key R ` set (target_records (payload_records r)))"
proof -
  from feed_ok_shape[OF assms(1)] obtain code data bs where r: "r = Response code (Some data)"
    and ok: "\<not> raise_for_status code" and bs: "payload_records r = bs"
    and shape: "data = JList bs \<or> (\<exists>kv. data = JObj kv \<and> map_of kv ''boosts'' = Some (JList bs))"
    by blast
  from assms(2) bs have "\<forall>b\<in>set bs. no_exception b" by simp
  note loop = boosts_loop_complete[OF this, of R "[]" seen]
  have "get_boosted_tokens R (Response code (Some data)) seen =
      (fresh (boost_key R) seen (target_records bs), seen \<union> boost_key R ` set (target_records bs))"
    using shape ok loop by (auto simp: get_boosted_tokens_def get_boosted_tokens_try_def)
  then show ?thesis unfolding bs using r by simp
qed

lemma fresh_all: "distinct (map f xs) \<Longrightarrow> f ` set xs \<inter> S = {} \<Longrightarrow> fresh f S xs = xs"
  by (induction xs arbitrary: S) auto

lemma fresh_none: "f ` set xs \<subseteq> S \<Longrightarrow> fresh f S xs = []"
  by (induction xs arbitrary: S) auto

lemma fresh_nths:
  "fresh f S xs = nths xs {i. f (xs ! i) \<notin> S \<and> (\<forall>j<i. f (xs ! j) \<noteq> f (xs ! i))}"
proof (induction xs arbitrary: S)
  case Nil
  then show ?case by simp
next
  case (Cons x xs)
  have split: "\<And>P n. (\<forall>j<Suc n. P j) = (P 0 \<and> (\<forall>j<n. P (Suc j)))"
    by (metis less_Suc_eq_0_disj Suc_less_eq zero_less_Suc)
  show ?case
  proof (cases "f x \<in> S")
    case True
    have "{j. Suc j \<in> {i. f ((x # xs) ! i) \<notin> S \<and> (\<forall>j<i. f ((x # xs) ! j) \<noteq> f ((x # xs) ! i))}}
        = {i. f (xs ! i) \<notin> S \<and> (\<forall>j<i. f (xs ! j) \<noteq> f (xs ! i))}"
      using True by (auto simp: split)
    with True Cons.IH[of S] show ?thesis by (simp add: nths_Cons)
  next
    case False
    have "{j. Suc j \<in> {i. f ((x # xs) ! i) \<notin> S \<and> (\<forall>j<i. f ((x # xs) ! j) \<noteq> f ((x # xs) ! i))}}
        = {i. f (xs ! i) \<notin> insert (f x) S \<and> (\<forall>j<i. f (xs ! j) \<noteq> f (xs ! i))}"
      by (auto simp: split)
    with False Cons.IH[of "insert (f x) S"] show ?thesis by (simp add: nths_Cons)
  qed
qed

text \<open>
  Claim C1, as amended. The feed answers with a payload that is processed (a list of
  records, or a dict whose \<^verbatim>\<open>boosts\<close> is one, with a status that \<^verbatim>\<open>raise_for_status\<close>
  accepts), each record a dict whose \<^verbatim>\<open>chainId\<close> is absent or a string. If the keys of the
  target-chain records are pairwise distinct and none of them is in the cache, the first
  call returns all the target-chain records, in order, and a second call with the same
  payload, on the cache the first call leaves, returns the empty list.
\<close>

theorem fetch_twice:
  assumes "feed_ok r"
    and "\<forall>b\<in>set (payload_records r). no_exception b"
    and "distinct (map (boost_key repr) (target_records (payload_records r)))"
    and "boost_key repr ` set (target_records (payload_records r)) \<inter> seen = {}"
  shows "fst (get_boosted_tokens repr r seen) = target_records (payload_records r) \<and>
         fst (get_boosted_tokens repr r (snd (get_boosted_tokens repr r seen))) = []"
proof -
  let ?ts = "target_records (payload_records r)"
  have first: "get_boosted_tokens repr r seen = (?ts, seen \<union> boost_key repr ` set ?ts)"
    using get_boosted_tokens_payload[OF assms(1,2), of repr seen] fresh_all[OF assms(3,4)]
    by simp
  have "fresh (boost_key repr) (seen \<union> boost_key repr ` set ?ts) ?ts = []"
    by (rule fresh_none) simp
  then have second: "fst (get_boosted_tokens repr r (seen \<union> boost_key repr ` set ?ts)) = []"
    using get_boosted_tokens_payload[OF assms(1,2), of repr] by simp
  from first second show ?thesis by simp
qed

lemmas key_defs = boost_key_def the_triple_def boost_triple_def key_of_triple_def py_str_def
  str_int_def digits_of.simps digit_char_def
lemmas chain_defs = chain_id_of_def TARGET_CHAIN_def lower_char_def

text \<open>
  The hypotheses of the theorem hold for a feed of three records, served in a dict under
  \<^verbatim>\<open>boosts\<close>, and a cache of one key.
\<close>

theorem fetch_twice_witness:
  "feed_ok (Response 200 (Some (JObj [(''boosts'', JList [rec_eth, rec_c, rec_a])]))) \<and>
   payload_records (Response 200 (Some (JObj [(''boosts'', JList [rec_eth, rec_c, rec_a])]))) =
     [rec_eth, rec_c, rec_a] \<and>
   no_exception rec_eth \<and> no_exception rec_c \<and> no_exception rec_a \<and>
   target_records [rec_eth, rec_c, rec_a] = [rec_c, rec_a] \<and>
   boost_key no_repr rec_c = ''So2xyz_100_100'' \<and> boost_key no_repr rec_a = ''So1abc_500_1500'' \<and>
   fst (get_boosted_tokens no_repr
         (Response 200 (Some (JObj [(''boosts'', JList [rec_eth, rec_c, rec_a])]))) {''So9_1_1''})
     = [rec_c, rec_a] \<and>
   fst (get_boosted_tokens no_repr
         (Response 200 (Some (JObj [(''boosts'', JList [rec_eth, rec_c, rec_a])])))
         (snd (get_boosted_tokens no_repr
                (Response 200 (Some (JObj [(''boosts'', JList [rec_eth, rec_c, rec_a])])))
                {''So9_1_1''})))
     = []"
proof -
  let ?r = "Response 200 (Some (JObj [(''boosts'', JList [rec_eth, rec_c, rec_a])]))"
  have ok: "feed_ok ?r" by (simp add: feed_ok_def raise_for_status_def)
  have pr: "payload_records ?r = [rec_eth, rec_c, rec_a]" by (simp add: payload_records_def)
  have ne: "no_exception rec_eth \<and> no_exception rec_c \<and> no_exception rec_a"
    by (simp add: no_exception_def chain_defs ex_defs)
  have tr: "target_records [rec_eth, rec_c, rec_a] = [rec_c, rec_a]"
    by (simp add: target_records_def chain_defs ex_defs)
  have kc: "boost_key no_repr rec_c = ''So2xyz_100_100''"
    by (simp add: key_defs ex_defs)
  have ka: "boost_key no_repr rec_a = ''So1abc_500_1500''"
    by (simp add: key_defs ex_defs)
  have h1: "\<forall>b\<in>set (payload_records ?r). no_exception b" using ne by (simp add: pr)
  have h2: "distinct (map (boost_key no_repr) (target_records (payload_records ?r)))"
    by (simp add: pr tr kc ka)
  have h3: "boost_key no_repr ` set (target_records (payload_records ?r)) \<inter> {''So9_1_1''} = {}"
    by (simp add: pr tr kc ka)
  from fetch_twice[OF ok h1 h2 h3] ok pr ne tr kc ka show ?thesis by simp
qed

text \<open>
  Claim C1 as the specification states it fails when two target-chain records of one
  payload have the same key: the cache is empty, and the first call returns only the first
  of the two records.
\<close>

theorem fetch_twice_counterexample:
  "target_records [rec_a, rec_b] = [rec_a, rec_b] \<and>
   boost_key no_repr rec_a \<notin> {} \<and> boost_key no_repr rec_b \<notin> {} \<and>
   fst (get_boosted_tokens no_repr (Response 200 (Some (JList [rec_a, rec_b]))) {}) = [rec_a] \<and>
   fst (get_boosted_tokens no_repr (Response 200 (Some (JList [rec_a, rec_b]))) {})
     \<noteq> target_records [rec_a, rec_b]"
proof -
  have tr: "target_records [rec_a, rec_b] = [rec_a, rec_b]"
    by (simp add: target_records_def chain_defs ex_defs)
  have v: "fst (get_boosted_tokens no_repr (Response 200 (Some (JList [rec_a, rec_b]))) {}) = [rec_a]"
    by (simp add: scan_defs ex_defs)
  show ?thesis unfolding tr v by simp
qed

subsection \<open>The decimal text of an integer\<close>

lemma digit_char_in: "d < 10 \<Longrightarrow> digit_char d \<in> set ''0123456789''"
  unfolding digit_char_def by (rule nth_mem) simp

lemma digit_char_inj: "d < 10 \<Longrightarrow> d' < 10 \<Longrightarrow> digit_char d = digit_char d' \<Longrightarrow> d = d'"
proof -
  assume "d < 10" "d' < 10" "digit_char d = digit_char d'"
  moreover have "distinct ''0123456789''" by simp
  ultimately show "d = d'"
    unfolding digit_char_def by (simp add: nth_eq_iff_index_eq)
qed

lemma digits_of_chars: "set (digits_of n) \<subseteq> set ''0123456789''"
proof (induction n rule: digits_of.induct)
  case (1 n)
  show ?case
  proof (cases "n < 10")
    case True
    then show ?thesis using digit_char_in[of n] by (subst digits_of.simps) simp
  next
    case False
    with "1.IH" digit_char_in[of "n mod 10"] show ?thesis
      by (subst digits_of.simps) simp
  qed
qed

lemma digits_of_not_Nil: "digits_of n \<noteq> []"
  by (subst digits_of.simps) simp

lemma digits_of_inj: "digits_of n = digits_of m \<Longrightarrow> n = m"
proof (induction n arbitrary: m rule: digits_of.induct)
  case (1 n)
  show ?case
  proof (cases "n < 10")
    case True
    then have n: "digits_of n = [digit_char n]" by (subst digits_of.simps) simp
    show ?thesis
    proof (cases "m < 10")
      case True
      then have "digits_of m = [digit_char m]" by (subst digits_of.simps) simp
      with n "1.prems" \<open>n < 10\<close> True show ?thesis by (auto dest: digit_char_inj)
    next
      case False
      then have "digits_of m = digits_of (m div 10) @ [digit_char (m mod 10)]"
        by (subst digits_of.simps) simp
      with n "1.prems" digits_of_not_Nil[of "m div 10"] show ?thesis by simp
    qed
  next
    case False
    then have n: "digits_of n = digits_of (n div 10) @ [digit_char (n mod 10)]"
      by (subst digits_of.simps) simp
    show ?thesis
    proof (cases "m < 10")
      case True
      then have "digits_of m = [digit_char m]" by (subst digits_of.simps) simp
      with n "1.prems" digits_of_not_Nil[of "n div 10"] show ?thesis by simp
    next
      case m: False
      then have "digits_of m = digits_of (m div 10) @ [digit_char (m mod 10)]"
        by (subst digits_of.simps) simp
      with n "1.prems" have a: "digits_of (n div 10) = digits_of (m div 10)"
        and b: "digit_char (n mod 10) = digit_char (m mod 10)" by simp_all
      from "1.IH"[OF False a] have "n div 10 = m div 10" .
      moreover from b have "n mod 10 = m mod 10"
        using digit_char_inj[of "n mod 10" "m mod 10"] by simp
      ultimately show ?thesis by (metis div_mult_mod_eq)
    qed
  qed
qed

lemma str_int_inj: "str_int n = str_int m \<Longrightarrow> n = m"
proof -
  assume eq: "str_int n = str_int m"
  have "CHR ''-'' \<notin> set ''0123456789''" by simp
  then have nodash: "\<And>k. CHR ''-'' \<notin> set (digits_of k)" using digits_of_chars by blast
  have hd_digit: "\<And>k ds. digits_of k \<noteq> CHR ''-'' # ds"
    using nodash by (metis list.set_intros(1))
  consider "n < 0" "m < 0" | "n < 0" "\<not> m < 0" | "\<not> n < 0" "m < 0" | "\<not> n < 0" "\<not> m < 0"
    by blast
  then show "n = m"
  proof cases
    case 1
    with eq have "nat (- n) = nat (- m)" by (auto simp: str_int_def dest: digits_of_inj)
    with 1 show ?thesis by simp
  next
    case 2
    with eq have "digits_of (nat m) = CHR ''-'' # digits_of (nat (- n))"
      by (simp add: str_int_def)
    with hd_digit show ?thesis by blast
  next
    case 3
    with eq have "digits_of (nat n) = CHR ''-'' # digits_of (nat (- m))"
      by (simp add: str_int_def)
    with hd_digit show ?thesis by blast
  next
    case 4
    with eq have "nat n = nat m" by (auto simp: str_int_def dest: digits_of_inj)
    with 4 show ?thesis by simp
  qed
qed

lemma str_int_no_underscore: "CHR ''_'' \<notin> set (str_int n)"
proof -
  have "CHR ''_'' \<notin> set ''0123456789''" by simp
  then have "\<And>k. CHR ''_'' \<notin> set (digits_of k)" using digits_of_chars by blast
  then show ?thesis by (simp add: str_int_def)
qed

subsection \<open>The key of a typed triple\<close>

lemma split_at_last:
  assumes "x @ c # y = x' @ c # y'" and "c \<notin> set y" and "c \<notin> set y'"
  shows "x = x' \<and> y = y'"
proof -
  from assms(1) obtain us where
    "(x = x' @ us \<and> us @ c # y = c # y') \<or> (x @ us = x' \<and> c # y = us @ c # y')"
    by (auto simp: append_eq_append_conv2)
  then show ?thesis
  proof
    assume a: "x = x' @ us \<and> us @ c # y = c # y'"
    show ?thesis
    proof (cases us)
      case Nil
      with a show ?thesis by simp
    next
      case (Cons u us')
      with a have "y' = us' @ c # y" by simp
      with assms(3) show ?thesis by simp
    qed
  next
    assume a: "x @ us = x' \<and> c # y = us @ c # y'"
    show ?thesis
    proof (cases us)
      case Nil
      with a show ?thesis by simp
    next
      case (Cons u us')
      with a have "y = us' @ c # y'" by simp
      with assms(2) show ?thesis by simp
    qed
  qed
qed

lemma key_of_triple_inj:
  assumes "typed_triple t1" and "typed_triple t2"
  shows "(key_of_triple R t1 = key_of_triple R t2) = (t1 = t2)"
proof
  assume eq: "key_of_triple R t1 = key_of_triple R t2"
  from assms(1) obtain a1 m1 n1 where t1: "t1 = (JStr a1, JInt m1, JInt n1)"
    by (cases t1 rule: typed_triple.cases) simp_all
  from assms(2) obtain a2 m2 n2 where t2: "t2 = (JStr a2, JInt m2, JInt n2)"
    by (cases t2 rule: typed_triple.cases) simp_all
  from eq t1 t2 have
    "(a1 @ CHR ''_'' # str_int m1) @ CHR ''_'' # str_int n1 =
     (a2 @ CHR ''_'' # str_int m2) @ CHR ''_'' # str_int n2"
    by (simp add: key_of_triple_def py_str_def)
  from split_at_last[OF this str_int_no_underscore str_int_no_underscore]
  have a: "a1 @ CHR ''_'' # str_int m1 = a2 @ CHR ''_'' # str_int m2" and n: "str_int n1 = str_int n2"
    by simp_all
  from split_at_last[OF a str_int_no_underscore str_int_no_underscore]
  have "a1 = a2" "str_int m1 = str_int m2" by simp_all
  with n t1 t2 show "t1 = t2" by (auto dest: str_int_inj)
qed simp

lemma nths_cong: "(\<And>i. i < length xs \<Longrightarrow> (i \<in> A) = (i \<in> B)) \<Longrightarrow> nths xs A = nths xs B"
  unfolding nths_def
  by (rule arg_cong[where f = "map fst"], rule filter_cong) (auto simp: set_zip)

text \<open>
  Claim C2, as amended. The feed answers with a payload that is processed, each record a
  dict whose \<^verbatim>\<open>chainId\<close> is absent or a string; the triple of every target-chain record is
  typed as the feed documents it (the address a string, the two amounts integers, absent
  fields taking the defaults of the code), and the cache holds the keys of a set \<open>S\<close> of
  typed triples, those of the records seen before. Then the call returns the target-chain
  records but those whose triple is in \<open>S\<close> or is the triple of an earlier target-chain
  record of the payload: a record is dropped exactly when a record seen before has its
  triple. And two typed triples have the same key exactly when they are equal.
\<close>

theorem dedup_by_triple:
  assumes "feed_ok r"
    and "\<forall>b\<in>set (payload_records r). no_exception b"
    and "\<forall>b\<in>set (target_records (payload_records r)). typed_triple (the_triple b)"
    and "\<forall>t\<in>S. typed_triple t"
  shows "fst (get_boosted_tokens repr r (key_of_triple repr ` S)) =
           nths (target_records (payload_records r))
             {i. the_triple (target_records (payload_records r) ! i) \<notin> S \<and>
                 (\<forall>j<i. the_triple (target_records (payload_records r) ! j) \<noteq>
                         the_triple (target_records (payload_records r) ! i))} \<and>
         (\<forall>t1 t2. typed_triple t1 \<and> typed_triple t2 \<longrightarrow>
            (key_of_triple repr t1 = key_of_triple repr t2) = (t1 = t2))"
proof -
  let ?ts = "target_records (payload_records r)"
  have typed: "\<And>i. i < length ?ts \<Longrightarrow> typed_triple (the_triple (?ts ! i))"
    using assms(3) by simp
  have inS: "\<And>i. i < length ?ts \<Longrightarrow>
      (boost_key repr (?ts ! i) \<in> key_of_triple repr ` S) = (the_triple (?ts ! i) \<in> S)"
    using typed assms(4) key_of_triple_inj[of _ _ repr] unfolding boost_key_def by blast
  have earlier: "\<And>i j. i < length ?ts \<Longrightarrow> j < i \<Longrightarrow>
      (boost_key repr (?ts ! j) = boost_key repr (?ts ! i)) = (the_triple (?ts ! j) = the_triple (?ts ! i))"
    using typed key_of_triple_inj[of _ _ repr] unfolding boost_key_def by simp
  have "fst (get_boosted_tokens repr r (key_of_triple repr ` S)) =
      nths ?ts {i. boost_key repr (?ts ! i) \<notin> key_of_triple repr ` S \<and>
                   (\<forall>j<i. boost_key repr (?ts ! j) \<noteq> boost_key repr (?ts ! i))}"
    using get_boosted_tokens_payload[OF assms(1,2), of repr] by (simp add: fresh_nths)
  also have "\<dots> = nths ?ts {i. the_triple (?ts ! i) \<notin> S \<and>
                   (\<forall>j<i. the_triple (?ts ! j) \<noteq> the_triple (?ts ! i))}"
    by (rule nths_cong) (simp add: inS earlier)
  finally show ?thesis using key_of_triple_inj[of _ _ repr] by simp
qed

text \<open>
  The hypotheses hold for a feed of four records and a cache with the key of one triple:
  of the three target-chain records, the second repeats the triple of the first and the
  triple of the third is in the cache.
\<close>

theorem dedup_by_triple_witness:
  "feed_ok (Response 200 (Some (JList [rec_eth, rec_a, rec_b, rec_c]))) \<and>
   no_exception rec_eth \<and> no_exception rec_a \<and> no_exception rec_b \<and> no_exception rec_c \<and>
   target_records [rec_eth, rec_a, rec_b, rec_c] = [rec_a, rec_b, rec_c] \<and>
   typed_triple (the_triple rec_a) \<and> typed_triple (the_triple rec_b) \<and>
   typed_triple (the_triple rec_c) \<and>
   fst (get_boosted_tokens no_repr (Response 200 (Some (JList [rec_eth, rec_a, rec_b, rec_c])))
         (key_of_triple no_repr ` {the_triple rec_c})) =
     nths [rec_a, rec_b, rec_c]
       {i. the_triple ([rec_a, rec_b, rec_c] ! i) \<notin> {the_triple rec_c} \<and>
           (\<forall>j<i. the_triple ([rec_a, rec_b, rec_c] ! j) \<noteq> the_triple ([rec_a, rec_b, rec_c] ! i))} \<and>
   fst (get_boosted_tokens no_repr (Response 200 (Some (JList [rec_eth, rec_a, rec_b, rec_c])))
         (key_of_triple no_repr ` {the_triple rec_c})) = [rec_a] \<and>
   (key_of_triple no_repr (the_triple rec_a) = key_of_triple no_repr (the_triple rec_c)) =
     (the_triple rec_a = the_triple rec_c)"
proof -
  let ?r = "Response 200 (Some (JList [rec_eth, rec_a, rec_b, rec_c]))"
  have ok: "feed_ok ?r" by (simp add: feed_ok_def raise_for_status_def)
  have pr: "payload_records ?r = [rec_eth, rec_a, rec_b, rec_c]" by (simp add: payload_records_def)
  have ne: "no_exception rec_eth \<and> no_exception rec_a \<and> no_exception rec_b \<and> no_exception rec_c"
    by (simp add: no_exception_def chain_defs ex_defs)
  have tr: "target_records [rec_eth, rec_a, rec_b, rec_c] = [rec_a, rec_b, rec_c]"
    by (simp add: target_records_def chain_defs ex_defs)
  have ty: "typed_triple (the_triple rec_a) \<and> typed_triple (the_triple rec_b) \<and>
      typed_triple (the_triple rec_c)"
    by (simp add: the_triple_def boost_triple_def ex_defs)
  have v: "fst (get_boosted_tokens no_repr ?r (key_of_triple no_repr ` {the_triple rec_c})) = [rec_a]"
    by (simp add: scan_defs the_triple_def ex_defs)
  have h1: "\<forall>b\<in>set (payload_records ?r). no_exception b" using ne by (simp add: pr)
  have h2: "\<forall>b\<in>set (target_records (payload_records ?r)). typed_triple (the_triple b)"
    using ty by (simp add: pr tr)
  have h3: "\<forall>t\<in>{the_triple rec_c}. typed_triple t" using ty by simp
  note t = dedup_by_triple[OF ok h1 h2 h3, of no_repr, unfolded pr tr]
  from t have inst: "(key_of_triple no_repr (the_triple rec_a) = key_of_triple no_repr (the_triple rec_c)) =
     (the_triple rec_a = the_triple rec_c)"
    using ty by blast
  from t ok ne tr ty v inst show ?thesis by simp
qed

text \<open>
  Claim C2 as the specification states it fails on a record whose amount is the string
  \<^verbatim>\<open>"500"\<close>: its triple differs from the triple of the record whose amount is the integer
  500, the two keys are the same text, and the second record is dropped although no
  record seen before has its triple.
\<close>

theorem dedup_by_triple_counterexample:
  "the_triple rec_a \<noteq> the_triple rec_str \<and>
   key_of_triple no_repr (the_triple rec_a) = key_of_triple no_repr (the_triple rec_str) \<and>
   target_records [rec_a, rec_str] = [rec_a, rec_str] \<and>
   fst (get_boosted_tokens no_repr (Response 200 (Some (JList [rec_a, rec_str]))) {}) = [rec_a]"
proof -
  have a: "the_triple rec_a \<noteq> the_triple rec_str"
    by (simp add: the_triple_def boost_triple_def ex_defs)
  have b: "key_of_triple no_repr (the_triple rec_a) = key_of_triple no_repr (the_triple rec_str)"
    by (simp add: key_defs ex_defs)
  have c: "target_records [rec_a, rec_str] = [rec_a, rec_str]"
    by (simp add: target_records_def chain_defs ex_defs)
  have d: "fst (get_boosted_tokens no_repr (Response 200 (Some (JList [rec_a, rec_str]))) {}) = [rec_a]"
    by (simp add: scan_defs ex_defs)
  from a b c d show ?thesis by simp
qed

section \<open>Properties of cleanup_cache\<close>

lemma py_slice_from_last:
  "0 < m \<Longrightarrow> py_slice_from (- m) xs = drop (length xs - nat m) xs"
  by (auto simp: py_slice_from_def Let_def max_def nat_diff_distrib' intro: arg_cong[where f = "\<lambda>n. drop n xs"])

text \<open>
  With a positive bound the method does what its docstring says: a cache larger than the
  bound is cut to exactly \<open>max_size\<close> identifiers, all of them from the cache, and a cache
  within the bound is left as it is.
\<close>

lemma cleanup_cache_positive:
  assumes "set ids_list = seen" and "distinct ids_list"
    and "0 < max_size" and "int (card seen) > max_size"
  shows "card (cleanup_cache ids_list max_size seen) = nat max_size \<and>
         cleanup_cache ids_list max_size seen \<subseteq> seen"
proof -
  have len: "length ids_list = card seen"
    using assms(1,2) distinct_card by fastforce
  have c: "cleanup_cache ids_list max_size seen = set (drop (length ids_list - nat max_size) ids_list)"
    using assms(3,4) by (simp add: cleanup_cache_def py_slice_from_last)
  have "distinct (drop (length ids_list - nat max_size) ids_list)"
    using assms(2) by simp
  then have "card (set (drop (length ids_list - nat max_size) ids_list)) =
      length (drop (length ids_list - nat max_size) ids_list)"
    by (rule distinct_card)
  also have "\<dots> = nat max_size" using assms(3,4) len by simp
  finally have "card (cleanup_cache ids_list max_size seen) = nat max_size" using c by simp
  moreover have "cleanup_cache ids_list max_size seen \<subseteq> seen"
    unfolding c using assms(1) set_drop_subset by fastforce
  ultimately show ?thesis by simp
qed

lemma cleanup_cache_within_bound:
  "int (card seen) \<le> max_size \<Longrightarrow> cleanup_cache ids_list max_size seen = seen"
  by (simp add: cleanup_cache_def)

text \<open>
  Claim C4. The claim is about every bound, and the code misses the bound 0: the slice
  \<^verbatim>\<open>ids_list[-0:]\<close> is the whole list, so a cache of one identifier cleaned with
  \<^verbatim>\<open>max_size = 0\<close> still holds one identifier, where the claim (and the docstring, "maximum
  number of identifiers to keep") asks for none.
\<close>

theorem cleanup_cache_zero_keeps_all:
  "cleanup_cache [''So1abc_500_1500''] 0 {''So1abc_500_1500''} = {''So1abc_500_1500''} \<and>
   card (cleanup_cache [''So1abc_500_1500''] 0 {''So1abc_500_1500''}) = 0 + 1"
  by (simp add: cleanup_cache_def py_slice_from_def)

section \<open>Properties of get_token_details\<close>

lemmas ex2_defs = pair_eth_def pair_low_def pair_high_def pairs_body_def
lemmas nan_defs = pair_ten_def pair_nan_def pair_fifty_def nan_body_def

lemma solana_pairs_of_filter:
  "solana_pairs_of ps = Inr sp \<Longrightarrow> sp = filter (\<lambda>p. chain_id_of p = Inr TARGET_CHAIN) ps"
  by (induction ps arbitrary: sp) (auto split: sum.splits if_splits)

lemma solana_pairs_of_strings:
  "solana_pairs_of (map JStr ks) = Inr sp \<Longrightarrow> ks = []"
  by (cases ks) (auto simp: chain_id_of_def split: sum.splits)

lemma with_keys_sound:
  "with_keys pf xs = Inr kxs \<Longrightarrow>
   map snd kxs = xs \<and> (\<forall>kx\<in>set kxs. liquidity_key pf (snd kx) = Inr (fst kx))"
  by (induction xs arbitrary: kxs) (auto split: sum.splits)

lemma hd_sort_reverse:
  assumes "kxs \<noteq> []"
  shows "\<exists>k. (k, hd (sort_reverse kxs)) \<in> set kxs \<and> (\<forall>kx\<in>set kxs. rank (fst kx) \<le> rank k)"
proof -
  let ?key = "\<lambda>kx :: double \<times> json. rank (fst kx)"
  let ?s = "sort_key ?key (rev kxs)"
  have ne: "?s \<noteq> []" using assms by (metis length_sort length_rev length_0_conv)
  have st: "set ?s = set kxs" by simp
  have so: "sorted (map ?key ?s)" by (rule sorted_sort_key)
  have hd: "hd (sort_reverse kxs) = snd (last ?s)"
    using ne by (simp add: sort_reverse_def hd_map hd_rev)
  have mem: "last ?s \<in> set kxs" using ne st last_in_set by blast
  have "\<forall>kx\<in>set ?s. ?key kx \<le> ?key (last ?s)"
  proof
    fix kx assume "kx \<in> set ?s"
    then obtain i where i: "i < length ?s" "?s ! i = kx" by (metis in_set_conv_nth)
    have "map ?key ?s ! i \<le> map ?key ?s ! (length ?s - 1)"
      using so i(1) by (intro sorted_nth_mono) auto
    with i ne show "?key kx \<le> ?key (last ?s)" by (simp add: last_conv_nth)
  qed
  with st have "\<forall>kx\<in>set kxs. rank (fst kx) \<le> rank (fst (last ?s))" by simp
  with mem hd show ?thesis by (intro exI[of _ "fst (last ?s)"]) simp
qed

lemma first_after_sort_member:
  assumes "kxs \<noteq> []"
  shows "\<exists>k. (k, first_after_sort nf kxs) \<in> set kxs \<and>
           (NaN \<notin> set (map fst kxs) \<longrightarrow> (\<forall>kx\<in>set kxs. rank (fst kx) \<le> rank k))"
proof (cases "NaN \<notin> set (map fst kxs)")
  case True
  with hd_sort_reverse[OF assms] show ?thesis by (simp add: first_after_sort_def)
next
  case nan: False
  show ?thesis
  proof (cases "descends (rev (map fst kxs))")
    case False
    with nan have "first_after_sort nf kxs = snd (hd kxs)" by (simp add: first_after_sort_def)
    moreover have "(fst (hd kxs), snd (hd kxs)) \<in> set kxs" using assms by simp
    ultimately show ?thesis using nan by (intro exI[of _ "fst (hd kxs)"]) simp
  next
    case True
    let ?i = "nf (map fst kxs) mod length kxs"
    from True nan have "first_after_sort nf kxs = snd (kxs ! ?i)"
      by (simp add: first_after_sort_def)
    moreover have "?i < length kxs" using assms by simp
    then have "(fst (kxs ! ?i), snd (kxs ! ?i)) \<in> set kxs" by simp
    ultimately show ?thesis using nan by (intro exI[of _ "fst (kxs ! ?i)"]) simp
  qed
qed

lemma most_liquid_pair_cases:
  assumes "most_liquid_pair pf nf r = Inr found"
  shows "(found = None \<and> target_pairs r = []) \<or>
         (\<exists>kv ps kxs. r = Response 200 (Some (JObj kv)) \<and> map_of kv ''pairs'' = Some (JList ps) \<and>
            target_pairs r \<noteq> [] \<and> with_keys pf (target_pairs r) = Inr kxs \<and>
            found = Some (first_after_sort nf kxs))"
proof (cases r)
  case Transport_failure
  with assms show ?thesis by (simp add: most_liquid_pair_def)
next
  case (Response code body)
  show ?thesis
  proof (cases "code = 200")
    case False
    with assms Response show ?thesis
      by (auto simp: most_liquid_pair_def target_pairs_def split: option.splits json.splits)
  next
    case True
    with assms Response obtain data where body: "body = Some data"
      by (cases body) (auto simp: most_liquid_pair_def)
    show ?thesis
    proof (cases data)
      case (JObj kv)
      show ?thesis
      proof (cases "map_of kv ''pairs''")
        case None
        with assms Response True body JObj show ?thesis
          by (simp add: most_liquid_pair_def target_pairs_def)
      next
        case (Some pairs)
        show ?thesis
        proof (cases pairs)
          case (JList ps)
          show ?thesis
          proof (cases "ps = []")
            case True
            with assms Response \<open>code = 200\<close> body JObj Some JList show ?thesis
              by (simp add: most_liquid_pair_def target_pairs_def)
          next
            case False
            with assms Response \<open>code = 200\<close> body JObj Some JList
            obtain sp where sp: "solana_pairs_of ps = Inr sp"
              by (cases "solana_pairs_of ps") (auto simp: most_liquid_pair_def)
            then have tp: "target_pairs r = sp"
              using Response \<open>code = 200\<close> body JObj Some JList solana_pairs_of_filter[OF sp]
              by (simp add: target_pairs_def)
            show ?thesis
            proof (cases "sp = []")
              case True
              with assms Response \<open>code = 200\<close> body JObj Some JList False sp tp show ?thesis
                by (simp add: most_liquid_pair_def)
            next
              case spne: False
              with assms Response \<open>code = 200\<close> body JObj Some JList False sp
              obtain kxs where "with_keys pf sp = Inr kxs" "found = Some (first_after_sort nf kxs)"
                by (cases "with_keys pf sp") (auto simp: most_liquid_pair_def)
              with spne tp Response \<open>code = 200\<close> body JObj Some JList show ?thesis by simp
            qed
          qed
        next
          case (JObj kv')
          have "\<And>sp. solana_pairs_of (map (\<lambda>(k, v). JStr k) kv') = Inr sp \<Longrightarrow> kv' = []"
            using solana_pairs_of_strings[of "map fst kv'"]
            by (simp add: case_prod_unfold comp_def)
          with assms Response True body \<open>data = JObj kv\<close> Some JObj show ?thesis
            by (cases "kv' = []")
               (auto simp: most_liquid_pair_def target_pairs_def split: sum.splits if_splits)
        next
          case (JStr s)
          have "\<And>sp. solana_pairs_of (map (\<lambda>c. JStr [c]) s) = Inr sp \<Longrightarrow> s = []"
            using solana_pairs_of_strings[of "map (\<lambda>c. [c]) s"] by (simp add: comp_def)
          with assms Response True body \<open>data = JObj kv\<close> Some JStr show ?thesis
            by (cases "s = []")
               (auto simp: most_liquid_pair_def target_pairs_def split: sum.splits if_splits)
        qed (use assms Response True body \<open>data = JObj kv\<close> Some in
              \<open>simp_all add: most_liquid_pair_def target_pairs_def\<close>)
      qed
    qed (use assms Response True body in
          \<open>auto simp: most_liquid_pair_def target_pairs_def split: if_splits bool.splits\<close>)
  qed
qed

lemma most_liquid_pair_None: "most_liquid_pair pf nf r = Inr None \<Longrightarrow> target_pairs r = []"
  using most_liquid_pair_cases[of pf nf r None] by auto

lemma most_liquid_pair_Some:
  assumes "most_liquid_pair pf nf r = Inr (Some p)"
  shows "p \<in> set (target_pairs r) \<and> (\<exists>kp. liquidity_key pf p = Inr kp) \<and>
         ((\<forall>q\<in>set (target_pairs r). liquidity_key pf q \<noteq> Inr NaN) \<longrightarrow>
            (\<forall>q\<in>set (target_pairs r). \<exists>kp kq.
               liquidity_key pf p = Inr kp \<and> liquidity_key pf q = Inr kq \<and>
               rank kq \<le> rank kp \<and> \<not> lt_double kp kq))"
proof -
  from most_liquid_pair_cases[OF assms] obtain kxs where
    ne: "target_pairs r \<noteq> []" and wk: "with_keys pf (target_pairs r) = Inr kxs"
    and p: "p = first_after_sort nf kxs"
    by auto
  from with_keys_sound[OF wk] have m: "map snd kxs = target_pairs r"
    and k: "\<forall>kx\<in>set kxs. liquidity_key pf (snd kx) = Inr (fst kx)" by simp_all
  from m ne have "kxs \<noteq> []" by auto
  from first_after_sort_member[OF this, of nf] p obtain kp where
    kp: "(kp, p) \<in> set kxs"
    and mx: "NaN \<notin> set (map fst kxs) \<longrightarrow> (\<forall>kx\<in>set kxs. rank (fst kx) \<le> rank kp)" by auto
  from kp m have mem: "p \<in> set (target_pairs r)" by (metis image_eqI set_map snd_conv)
  from kp k have key: "liquidity_key pf p = Inr kp" by fastforce
  have "\<forall>q\<in>set (target_pairs r). \<exists>kq. liquidity_key pf q = Inr kq \<and>
          rank kq \<le> rank kp \<and> \<not> lt_double kp kq"
    if nn: "\<forall>q\<in>set (target_pairs r). liquidity_key pf q \<noteq> Inr NaN"
  proof
    have "NaN \<notin> set (map fst kxs)"
    proof
      assume "NaN \<in> set (map fst kxs)"
      then obtain kx where kx: "kx \<in> set kxs" "fst kx = NaN" by auto
      with k have "liquidity_key pf (snd kx) = Inr NaN" by auto
      moreover from kx(1) m have "snd kx \<in> set (target_pairs r)" by (metis image_eqI set_map)
      ultimately show False using nn by blast
    qed
    with mx have le: "\<forall>kx\<in>set kxs. rank (fst kx) \<le> rank kp" by simp
    fix q assume "q \<in> set (target_pairs r)"
    with m obtain kx where kx: "kx \<in> set kxs" "snd kx = q" by (metis imageE set_map)
    with le have "rank (fst kx) \<le> rank kp" by blast
    then have "\<not> lt_double kp (fst kx)" by (auto simp: lt_double_def)
    with kx k \<open>rank (fst kx) \<le> rank kp\<close>
    show "\<exists>kq. liquidity_key pf q = Inr kq \<and> rank kq \<le> rank kp \<and> \<not> lt_double kp kq" by auto
  qed
  with mem key show ?thesis by auto
qed

lemma urls_differ: "search_url R a \<noteq> token_url R a"
  by (simp add: search_url_def token_url_def)

text \<open>
  Claim C6, as amended. Every pair that \<^verbatim>\<open>get_token_details\<close> returns is a target-chain
  pair of the response that answered (the search response when it has a target-chain
  pair, the response of the token endpoint otherwise). When no sort key of the
  target-chain pairs of that response (the float of the USD liquidity) is NaN, the sort
  key of the returned pair is the largest among them: none of them is greater. The token
  endpoint is requested only when the search response has no target-chain pair, and the
  result is \<^verbatim>\<open>None\<close> when neither response has one.
\<close>

theorem token_details_postcondition:
  "(\<forall>p. fst (get_token_details repr pf nf first_get second_get a) = Some p \<longrightarrow>
      (let r = (if target_pairs (first_get (search_url repr a)) = []
                then second_get (token_url repr a) else first_get (search_url repr a))
       in p \<in> set (target_pairs r) \<and> (\<exists>kp. liquidity_key pf p = Inr kp) \<and>
          ((\<forall>q\<in>set (target_pairs r). liquidity_key pf q \<noteq> Inr NaN) \<longrightarrow>
             (\<forall>q\<in>set (target_pairs r). \<exists>kp kq.
                liquidity_key pf p = Inr kp \<and> liquidity_key pf q = Inr kq \<and>
                rank kq \<le> rank kp \<and> \<not> lt_double kp kq)))) \<and>
   (token_url repr a \<in> set (snd (get_token_details repr pf nf first_get second_get a)) \<longrightarrow>
      target_pairs (first_get (search_url repr a)) = []) \<and>
   (target_pairs (first_get (search_url repr a)) = [] \<and>
    target_pairs (second_get (token_url repr a)) = [] \<longrightarrow>
      fst (get_token_details repr pf nf first_get second_get a) = None)"
proof (cases "most_liquid_pair pf nf (first_get (search_url repr a))")
  case (Inl e)
  then have "get_token_details repr pf nf first_get second_get a = (None, [search_url repr a])"
    by (simp add: get_token_details_def)
  then show ?thesis using urls_differ[of repr a] by auto
next
  case (Inr found)
  show ?thesis
  proof (cases found)
    case (Some p)
    with Inr have g: "get_token_details repr pf nf first_get second_get a = (Some p, [search_url repr a])"
      by (simp add: get_token_details_def)
    from most_liquid_pair_Some[of pf nf "first_get (search_url repr a)" p] Inr Some
    have ne: "target_pairs (first_get (search_url repr a)) \<noteq> []" by auto
    from most_liquid_pair_Some[of pf nf "first_get (search_url repr a)" p] Inr Some ne
    show ?thesis unfolding g using urls_differ[of repr a] by (simp add: Let_def)
  next
    case None
    with Inr have first: "target_pairs (first_get (search_url repr a)) = []"
      by (simp add: most_liquid_pair_None)
    show ?thesis
    proof (cases "most_liquid_pair pf nf (second_get (token_url repr a))")
      case (Inl e)
      with Inr None have "fst (get_token_details repr pf nf first_get second_get a) = None"
        by (simp add: get_token_details_def)
      with first show ?thesis by simp
    next
      case found2: (Inr found')
      with Inr None have g: "fst (get_token_details repr pf nf first_get second_get a) = found'"
        by (simp add: get_token_details_def)
      show ?thesis
      proof (cases found')
        case None
        with g first show ?thesis by simp
      next
        case (Some p)
        from most_liquid_pair_Some[of pf nf "second_get (token_url repr a)" p] found2 Some
        have "target_pairs (second_get (token_url repr a)) \<noteq> []" by auto
        with most_liquid_pair_Some[of pf nf "second_get (token_url repr a)" p] found2 Some
        show ?thesis using g first by (simp add: Let_def)
      qed
    qed
  qed
qed

lemmas details_defs = get_token_details_def most_liquid_pair_def search_url_def token_url_def
  liquidity_key_def first_after_sort_def sort_reverse_def target_pairs_def lt_double_def

text \<open>
  A search response with three pairs, none with a NaN liquidity: the most liquid of the
  two target-chain pairs is returned, not the pair of the other chain. And a lookup whose
  two requests fail.
\<close>

theorem token_details_postcondition_witness:
  "fst (get_token_details no_repr float_of_number (\<lambda>ks. 0) (\<lambda>u. Response 200 (Some pairs_body))
         (\<lambda>u. Transport_failure) (JStr ''So1abc'')) = Some pair_high \<and>
   target_pairs (Response 200 (Some pairs_body)) = [pair_low, pair_high] \<and>
   pair_high \<in> set (target_pairs (Response 200 (Some pairs_body))) \<and>
   liquidity_key float_of_number pair_low = Inr (Fin (25001 / 2)) \<and>
   liquidity_key float_of_number pair_high = Inr (Fin 50000) \<and>
   (\<exists>kp kq. liquidity_key float_of_number pair_high = Inr kp \<and>
      liquidity_key float_of_number pair_low = Inr kq \<and> rank kq \<le> rank kp \<and> \<not> lt_double kp kq) \<and>
   token_url no_repr (JStr ''So1abc'') \<in> set (snd (get_token_details no_repr float_of_number (\<lambda>ks. 0)
         (\<lambda>u. Transport_failure) (\<lambda>u. Transport_failure) (JStr ''So1abc''))) = False \<and>
   target_pairs Transport_failure = [] \<and>
   fst (get_token_details no_repr float_of_number (\<lambda>ks. 0) (\<lambda>u. Response 404 None)
         (\<lambda>u. Transport_failure) (JStr ''So1abc'')) = None"
proof -
  have v: "fst (get_token_details no_repr float_of_number (\<lambda>ks. 0) (\<lambda>u. Response 200 (Some pairs_body))
         (\<lambda>u. Transport_failure) (JStr ''So1abc'')) = Some pair_high"
    by (simp add: details_defs ex2_defs chain_defs)
  have tp: "target_pairs (Response 200 (Some pairs_body)) = [pair_low, pair_high]"
    by (simp add: details_defs ex2_defs chain_defs)
  have kl: "liquidity_key float_of_number pair_low = Inr (Fin (25001 / 2))"
    by (simp add: liquidity_key_def ex2_defs)
  have kh: "liquidity_key float_of_number pair_high = Inr (Fin 50000)"
    by (simp add: liquidity_key_def ex2_defs)
  have e: "target_pairs Transport_failure = []" "target_pairs (Response 404 None) = []"
    by (simp_all add: target_pairs_def)
  have u: "token_url no_repr (JStr ''So1abc'') \<in> set (snd (get_token_details no_repr float_of_number (\<lambda>ks. 0)
         (\<lambda>u. Transport_failure) (\<lambda>u. Transport_failure) (JStr ''So1abc''))) = False"
    by (simp add: details_defs)
  note th = token_details_postcondition[of no_repr float_of_number "\<lambda>ks. 0"
      "\<lambda>u. Response 200 (Some pairs_body)" "\<lambda>u. Transport_failure" "JStr ''So1abc''"]
  from th v tp
  have m: "pair_high \<in> set (target_pairs (Response 200 (Some pairs_body)))"
    by (simp add: Let_def)
  from th v tp kl kh
  have mx: "\<exists>kp kq. liquidity_key float_of_number pair_high = Inr kp \<and>
      liquidity_key float_of_number pair_low = Inr kq \<and> rank kq \<le> rank kp \<and> \<not> lt_double kp kq"
    by (simp add: Let_def)
  from token_details_postcondition[of no_repr float_of_number "\<lambda>ks. 0" "\<lambda>u. Response 404 None"
      "\<lambda>u. Transport_failure" "JStr ''So1abc''"] e
  have n: "fst (get_token_details no_repr float_of_number (\<lambda>ks. 0) (\<lambda>u. Response 404 None)
         (\<lambda>u. Transport_failure) (JStr ''So1abc'')) = None"
    by simp
  from v tp m kl kh mx u e n show ?thesis by simp
qed

text \<open>
  Claim C6 as the specification states it fails when a liquidity is NaN. The search
  response has three target-chain pairs whose USD liquidities are 10, NaN and 50, in this
  order. No comparison with NaN is true, so \<^verbatim>\<open>list.sort\<close> finds the reversed list in order
  and leaves it as it is (whatever \<open>nf\<close> is), and the pair of liquidity 10 is returned
  although another pair has the liquidity 50.
\<close>

theorem token_details_postcondition_counterexample:
  "(\<forall>nf. fst (get_token_details no_repr float_of_number nf (\<lambda>u. Response 200 (Some nan_body))
          (\<lambda>u. Transport_failure) (JStr ''So1abc'')) = Some pair_ten) \<and>
   target_pairs (Response 200 (Some nan_body)) = [pair_ten, pair_nan, pair_fifty] \<and>
   liquidity_key float_of_number pair_ten = Inr (Fin 10) \<and>
   liquidity_key float_of_number pair_nan = Inr NaN \<and>
   liquidity_key float_of_number pair_fifty = Inr (Fin 50) \<and>
   lt_double (Fin 10) (Fin 50)"
proof -
  have v: "fst (get_token_details no_repr float_of_number nf (\<lambda>u. Response 200 (Some nan_body))
          (\<lambda>u. Transport_failure) (JStr ''So1abc'')) = Some pair_ten" for nf
    by (simp add: details_defs nan_defs chain_defs)
  have tp: "target_pairs (Response 200 (Some nan_body)) = [pair_ten, pair_nan, pair_fifty]"
    by (simp add: details_defs nan_defs chain_defs)
  have k: "liquidity_key float_of_number pair_ten = Inr (Fin 10)"
    "liquidity_key float_of_number pair_nan = Inr NaN"
    "liquidity_key float_of_number pair_fifty = Inr (Fin 50)"
    by (simp_all add: liquidity_key_def nan_defs)
  have l: "lt_double (Fin 10) (Fin 50)" by (simp add: lt_double_def)
  from v tp k l show ?thesis by simp
qed

section \<open>Failures of the upstream and of the formatting\<close>

lemma bind_err_Inr: "bind_err m f = Inr y \<Longrightarrow> \<exists>x. m = Inr x \<and> f x = Inr y"
  by (cases m) (simp_all add: bind_err_def)

lemma get_boosted_tokens_failure:
  assumes "no_body r \<or> (\<exists>code. status_of r = Some code \<and> raise_for_status code)"
  shows "get_boosted_tokens R r seen = ([], seen)"
proof (cases r)
  case Transport_failure
  then show ?thesis by (simp add: get_boosted_tokens_def get_boosted_tokens_try_def)
next
  case (Response code body)
  with assms have "raise_for_status code \<or> body = None" by (cases body) auto
  with Response show ?thesis
    by (auto simp: get_boosted_tokens_def get_boosted_tokens_try_def)
qed

lemma most_liquid_pair_failure:
  assumes "no_body r \<or> status_of r \<noteq> Some 200"
  shows "most_liquid_pair pf nf r = Inr None \<or> (\<exists>e. most_liquid_pair pf nf r = Inl e)"
proof (cases r)
  case Transport_failure
  then show ?thesis by (simp add: most_liquid_pair_def)
next
  case (Response code body)
  with assms have "code \<noteq> 200 \<or> body = None" by (cases body) auto
  with Response show ?thesis by (auto simp: most_liquid_pair_def)
qed

lemma get_token_details_failure:
  assumes "no_body (get1 (search_url R a)) \<or> status_of (get1 (search_url R a)) \<noteq> Some 200"
    and "no_body (get2 (token_url R a)) \<or> status_of (get2 (token_url R a)) \<noteq> Some 200"
  shows "fst (get_token_details R pf nf get1 get2 a) = None"
  using most_liquid_pair_failure[OF assms(1), of pf nf] most_liquid_pair_failure[OF assms(2), of pf nf]
  by (auto simp: get_token_details_def)

text \<open>An exchange with the search endpoint that raises ends the lookup.\<close>

lemma get_token_details_first_raises:
  assumes "get1 (search_url R a) = Transport_failure \<or> get1 (search_url R a) = Response 200 None"
  shows "get_token_details R pf nf get1 get2 a = (None, [search_url R a])"
  using assms by (auto simp: get_token_details_def most_liquid_pair_def)

text \<open>A status other than 200 from the search endpoint does not: the token endpoint is asked.\<close>

lemma get_token_details_first_status:
  assumes "status_of (get1 (search_url R a)) = Some code" and "code \<noteq> 200"
  shows "snd (get_token_details R pf nf get1 get2 a) = [search_url R a, token_url R a]"
proof -
  from assms obtain body where "get1 (search_url R a) = Response code body"
    by (cases "get1 (search_url R a)") auto
  with assms(2) show ?thesis
    by (simp add: get_token_details_def most_liquid_pair_def split: sum.splits)
qed

lemma get_token_details_fallback_fails:
  assumes "target_pairs (get1 (search_url R a)) = []"
    and "no_body (get2 (token_url R a)) \<or> status_of (get2 (token_url R a)) \<noteq> Some 200"
  shows "fst (get_token_details R pf nf get1 get2 a) = None"
proof (cases "most_liquid_pair pf nf (get1 (search_url R a))")
  case (Inl e)
  then show ?thesis by (simp add: get_token_details_def)
next
  case (Inr found)
  have "found = None"
  proof (cases found)
    case (Some p)
    with Inr most_liquid_pair_Some[of pf nf "get1 (search_url R a)" p] assms(1)
    show ?thesis by simp
  qed simp
  with Inr most_liquid_pair_failure[OF assms(2), of pf nf] show ?thesis
    by (auto simp: get_token_details_def)
qed

text \<open>
  \<^verbatim>\<open>format_boost_message\<close> returns \<^verbatim>\<open>None\<close> exactly when one of the statements of its body
  raises: a \<^verbatim>\<open>get\<close> on boost data that is not a dict, the reading of truthy token data,
  \<^verbatim>\<open>dex_id.lower()\<close>, or the comparison of the total amount with the amount.
\<close>

lemma platform_of_falsy: "\<not> truthy d \<Longrightarrow> platform_of cap (Some d) = Inr PUMP_FUN"
  by (simp add: platform_of_def)

lemma format_boost_message_None_iff:
  "(format_boost_message bi b t = None) =
     ((\<forall>kv. b \<noteq> JObj kv) \<or>
      (\<exists>d e. t = Some d \<and> truthy d \<and>
         (read_token_data bi d = Inl e \<or> platform_of (py_capitalize bi) (Some d) = Inl e)) \<or>
      (\<exists>e. py_gt (py_list_gt bi) (total_amount_of b) (amount_of b) = Inl e))"
proof (cases "\<exists>kv. b = JObj kv")
  case False
  then have "py_get b ''tokenAddress'' (JStr ''Unknown'') = Inl AttributeError"
    by (cases b) auto
  with False show ?thesis
    by (simp add: format_boost_message_def format_boost_message_try_def bind_err_def)
next
  case True
  then obtain kv where b: "b = JObj kv" by blast
  let ?gt = "py_gt (py_list_gt bi) (total_amount_of b) (amount_of b)"
  have nd: "(\<forall>kv. b \<noteq> JObj kv) = False" using True by simp
  have g: "\<exists>x. py_get b ''tokenAddress'' (JStr ''Unknown'') = Inr x"
    "py_get b ''amount'' (JInt 0) = Inr (amount_of b)"
    "py_get b ''totalAmount'' (amount_of b) = Inr (total_amount_of b)"
    by (simp_all add: b amount_of_def total_amount_of_def)
  from g(1) obtain x where x: "py_get b ''tokenAddress'' (JStr ''Unknown'') = Inr x" ..
  note defs = format_boost_message_def format_boost_message_try_def bind_err_def x g(2,3) nd
  show ?thesis
  proof (cases t)
    case None
    then show ?thesis
      by (cases ?gt) (simp_all add: defs platform_of_def)
  next
    case (Some d)
    show ?thesis
    proof (cases "truthy d")
      case False
      with Some show ?thesis
        by (cases ?gt) (simp_all add: defs platform_of_falsy)
    next
      case True
      with Some show ?thesis
        by (cases ?gt; cases "read_token_data bi d"; cases "platform_of (py_capitalize bi) (Some d)")
           (auto simp: defs)
    qed
  qed
qed

lemma read_token_data_not_dict: "\<forall>kv. d \<noteq> JObj kv \<Longrightarrow> read_token_data bi d = Inl AttributeError"
  by (cases d) (simp_all add: read_token_data_def bind_err_def)

lemma read_token_data_float:
  assumes "get_float bi d ''priceUsd'' = Inl e \<or> get_float bi d ''marketCap'' = Inl e"
  shows "\<exists>e'. read_token_data bi d = Inl e'"
proof (cases "read_token_data bi d")
  case (Inr m)
  then obtain p c where "get_float bi d ''priceUsd'' = Inr p" "get_float bi d ''marketCap'' = Inr c"
    unfolding read_token_data_def by (auto dest!: bind_err_Inr)
  with assms show ?thesis by auto
qed simp

lemma platform_of_not_string:
  assumes "truthy d" and "py_get d ''dexId'' (JStr '''') = Inr v" and "\<forall>s. v \<noteq> JStr s"
  shows "platform_of cap (Some d) = Inl AttributeError"
proof -
  from assms(3) have "py_lower v = Inl AttributeError" by (cases v) auto
  with assms(1,2) show ?thesis by (simp add: platform_of_def bind_err_def)
qed

lemma py_gt_string_number:
  assumes "float_val v \<noteq> None"
  shows "py_gt list_gt v (JStr s) = Inl TypeError"
  using assms by (cases v) (simp_all add: py_gt_def)

text \<open>
  Claim C7, as amended. None of the three methods raises: each returns a value for every
  input.
  \<^item> \<^verbatim>\<open>get_boosted_tokens\<close> returns the empty list, and leaves the cache as it is, when the
    request fails in transport, when the body does not parse, and when the status is 4xx
    or 5xx, the statuses for which \<^verbatim>\<open>raise_for_status\<close> raises.
  \<^item> \<^verbatim>\<open>get_token_details\<close> returns \<^verbatim>\<open>None\<close>, having requested the search endpoint only, when
    that request fails in transport or its body does not parse (at status 200, the only
    status at which the body is read). A status other than 200 from the search endpoint
    does not end the lookup: the token endpoint is requested. Whenever the search
    response has no target-chain pair and the exchange with the token endpoint fails (no
    body, or a status other than 200), the result is \<^verbatim>\<open>None\<close>; so it is when each of the
    two exchanges fails.
  \<^item> \<^verbatim>\<open>format_boost_message\<close> returns \<^verbatim>\<open>None\<close> exactly when a statement of its body raises:
    the boost data is not a dict; the token data is truthy and reading it raises (it is
    not a dict, \<^verbatim>\<open>float\<close> raises on its price or on its market cap, ...) or its \<^verbatim>\<open>dexId\<close>
    is not a string; or the total amount and the amount cannot be compared, as a number
    with a string.
\<close>

theorem failures_degrade:
  "(no_body r \<or> (\<exists>code. status_of r = Some code \<and> 400 \<le> code \<and> code < 600) \<longrightarrow>
      get_boosted_tokens repr r seen = ([], seen)) \<and>
   (first_get (search_url repr a) = Transport_failure \<or>
    first_get (search_url repr a) = Response 200 None \<longrightarrow>
      get_token_details repr pf nf first_get second_get a = (None, [search_url repr a])) \<and>
   ((\<exists>code. status_of (first_get (search_url repr a)) = Some code \<and> code \<noteq> 200) \<longrightarrow>
      snd (get_token_details repr pf nf first_get second_get a) =
        [search_url repr a, token_url repr a]) \<and>
   (target_pairs (first_get (search_url repr a)) = [] \<and>
    (no_body (second_get (token_url repr a)) \<or> status_of (second_get (token_url repr a)) \<noteq> Some 200) \<longrightarrow>
      fst (get_token_details repr pf nf first_get second_get a) = None) \<and>
   ((no_body (first_get (search_url repr a)) \<or> status_of (first_get (search_url repr a)) \<noteq> Some 200) \<and>
    (no_body (second_get (token_url repr a)) \<or> status_of (second_get (token_url repr a)) \<noteq> Some 200) \<longrightarrow>
      fst (get_token_details repr pf nf first_get second_get a) = None) \<and>
   (format_boost_message bi boost_data token_data = None) =
     ((\<forall>kv. boost_data \<noteq> JObj kv) \<or>
      (\<exists>d e. token_data = Some d \<and> truthy d \<and>
         (read_token_data bi d = Inl e \<or> platform_of (py_capitalize bi) (Some d) = Inl e)) \<or>
      (\<exists>e. py_gt (py_list_gt bi) (total_amount_of boost_data) (amount_of boost_data) = Inl e)) \<and>
   (token_data = Some d \<and> truthy d \<and>
    ((\<forall>kv. d \<noteq> JObj kv) \<or>
     (\<exists>e. get_float bi d ''priceUsd'' = Inl e \<or> get_float bi d ''marketCap'' = Inl e) \<or>
     (\<exists>v. py_get d ''dexId'' (JStr '''') = Inr v \<and> (\<forall>s. v \<noteq> JStr s))) \<longrightarrow>
      format_boost_message bi boost_data token_data = None) \<and>
   ((\<exists>s. amount_of boost_data = JStr s) \<and> float_val (total_amount_of boost_data) \<noteq> None \<longrightarrow>
      format_boost_message bi boost_data token_data = None)"
proof (intro conjI impI)
  assume "no_body r \<or> (\<exists>code. status_of r = Some code \<and> 400 \<le> code \<and> code < 600)"
  then show "get_boosted_tokens repr r seen = ([], seen)"
    by (intro get_boosted_tokens_failure) (auto simp: raise_for_status_def)
next
  assume "first_get (search_url repr a) = Transport_failure \<or>
    first_get (search_url repr a) = Response 200 None"
  then show "get_token_details repr pf nf first_get second_get a = (None, [search_url repr a])"
    by (rule get_token_details_first_raises)
next
  assume "\<exists>code. status_of (first_get (search_url repr a)) = Some code \<and> code \<noteq> 200"
  then show "snd (get_token_details repr pf nf first_get second_get a) =
        [search_url repr a, token_url repr a]"
    using get_token_details_first_status by blast
next
  assume "target_pairs (first_get (search_url repr a)) = [] \<and>
    (no_body (second_get (token_url repr a)) \<or> status_of (second_get (token_url repr a)) \<noteq> Some 200)"
  then show "fst (get_token_details repr pf nf first_get second_get a) = None"
    by (intro get_token_details_fallback_fails) simp_all
next
  assume "(no_body (first_get (search_url repr a)) \<or> status_of (first_get (search_url repr a)) \<noteq> Some 200) \<and>
    (no_body (second_get (token_url repr a)) \<or> status_of (second_get (token_url repr a)) \<noteq> Some 200)"
  then show "fst (get_token_details repr pf nf first_get second_get a) = None"
    by (intro get_token_details_failure) simp_all
next
  show "(format_boost_message bi boost_data token_data = None) =
     ((\<forall>kv. boost_data \<noteq> JObj kv) \<or>
      (\<exists>d e. token_data = Some d \<and> truthy d \<and>
         (read_token_data bi d = Inl e \<or> platform_of (py_capitalize bi) (Some d) = Inl e)) \<or>
      (\<exists>e. py_gt (py_list_gt bi) (total_amount_of boost_data) (amount_of boost_data) = Inl e))"
    by (rule format_boost_message_None_iff)
next
  assume h: "token_data = Some d \<and> truthy d \<and>
    ((\<forall>kv. d \<noteq> JObj kv) \<or>
     (\<exists>e. get_float bi d ''priceUsd'' = Inl e \<or> get_float bi d ''marketCap'' = Inl e) \<or>
     (\<exists>v. py_get d ''dexId'' (JStr '''') = Inr v \<and> (\<forall>s. v \<noteq> JStr s)))"
  then have "(\<exists>e. read_token_data bi d = Inl e) \<or>
      (\<exists>e. platform_of (py_capitalize bi) (Some d) = Inl e)"
    using read_token_data_not_dict[of d bi] read_token_data_float[of bi d]
      platform_of_not_string[of d _ "py_capitalize bi"]
    by blast
  with h show "format_boost_message bi boost_data token_data = None"
    unfolding format_boost_message_None_iff by blast
next
  assume "(\<exists>s. amount_of boost_data = JStr s) \<and> float_val (total_amount_of boost_data) \<noteq> None"
  then have "\<exists>e. py_gt (py_list_gt bi) (total_amount_of boost_data) (amount_of boost_data) = Inl e"
    using py_gt_string_number by fastforce
  then show "format_boost_message bi boost_data token_data = None"
    unfolding format_boost_message_None_iff by blast
qed

lemmas format_defs = format_boost_message_def format_boost_message_try_def bind_err_def
  py_gt_def platform_of_def

text \<open>
  A body that does not parse and a status 503 for the feed. For the lookup: a search
  request that fails in transport; a search status 500, after which the token endpoint
  is requested and fails in transport. For the formatter: a boost whose amount is a
  string and whose total is an integer (\<^verbatim>\<open>total_amount > amount\<close> raises TypeError),
  token data that is a list, token data whose price is the text \<^verbatim>\<open>abc\<close>, token data
  whose \<^verbatim>\<open>dexId\<close> is a number, and a boost with no token data, for which nothing raises
  and a text is returned.
\<close>

theorem failures_degrade_witness:
  "no_body (Response 200 None) \<and>
   get_boosted_tokens no_repr (Response 200 None) {''So9_1_1''} = ([], {''So9_1_1''}) \<and>
   status_of (Response 503 (Some (JList [rec_a]))) = Some 503 \<and>
   get_boosted_tokens no_repr (Response 503 (Some (JList [rec_a]))) {} = ([], {}) \<and>
   get_token_details no_repr float_of_number (\<lambda>ks. 0) (\<lambda>u. Transport_failure)
     (\<lambda>u. Response 200 (Some pairs_body)) (JStr ''So1abc'') =
     (None, [search_url no_repr (JStr ''So1abc'')]) \<and>
   status_of (Response 500 (Some pairs_body)) = Some 500 \<and> no_body Transport_failure \<and>
   get_token_details no_repr float_of_number (\<lambda>ks. 0) (\<lambda>u. Response 500 (Some pairs_body))
     (\<lambda>u. Transport_failure) (JStr ''So1abc'') =
     (None, [search_url no_repr (JStr ''So1abc''), token_url no_repr (JStr ''So1abc'')]) \<and>
   amount_of rec_str = JStr ''500'' \<and> total_amount_of rec_str = JInt 1500 \<and>
   format_boost_message plain_builtins rec_str None = None \<and>
   truthy (JList [JInt 1]) \<and>
   format_boost_message plain_builtins rec_a (Some (JList [JInt 1])) = None \<and>
   get_float plain_builtins (JObj [(''priceUsd'', JStr ''abc'')]) ''priceUsd'' = Inl ValueError \<and>
   format_boost_message plain_builtins rec_a (Some (JObj [(''priceUsd'', JStr ''abc'')])) = None \<and>
   py_get (JObj [(''dexId'', JInt 5)]) ''dexId'' (JStr '''') = Inr (JInt 5) \<and>
   format_boost_message plain_builtins rec_a (Some (JObj [(''dexId'', JInt 5)])) = None \<and>
   format_boost_message plain_builtins rec_a None \<noteq> None"
proof -
  have a: "no_body (Response 200 None)" "no_body Transport_failure" by simp_all
  have b: "status_of (Response 503 (Some (JList [rec_a]))) = Some 503"
    "status_of (Response 500 (Some pairs_body)) = Some 500" by simp_all
  have tp: "target_pairs (Response 500 (Some pairs_body)) = []"
    by (simp add: target_pairs_def pairs_body_def)
  have am: "amount_of rec_str = JStr ''500''" "total_amount_of rec_str = JInt 1500"
    by (simp_all add: amount_of_def total_amount_of_def ex_defs)
  have ama: "amount_of rec_a = JInt 500" "total_amount_of rec_a = JInt 1500"
    by (simp_all add: amount_of_def total_amount_of_def ex_defs)
  have gt: "py_gt (py_list_gt plain_builtins) (JInt 1500) (JInt 500) = Inr True"
    by (simp add: py_gt_def lt_double_def)
  have tr: "truthy (JList [JInt 1])" by simp
  from failures_degrade[where r = "Response 200 None" and repr = no_repr and seen = "{''So9_1_1''}"] a
  have 1: "get_boosted_tokens no_repr (Response 200 None) {''So9_1_1''} = ([], {''So9_1_1''})"
    by simp
  from failures_degrade[where r = "Response 503 (Some (JList [rec_a]))" and repr = no_repr and seen = "{}"] b
  have 2: "get_boosted_tokens no_repr (Response 503 (Some (JList [rec_a]))) {} = ([], {})"
    by simp
  from failures_degrade[where first_get = "\<lambda>u. Transport_failure" and repr = no_repr
      and a = "JStr ''So1abc''" and second_get = "\<lambda>u. Response 200 (Some pairs_body)"
      and pf = float_of_number and nf = "\<lambda>ks. 0"]
  have 3: "get_token_details no_repr float_of_number (\<lambda>ks. 0) (\<lambda>u. Transport_failure)
     (\<lambda>u. Response 200 (Some pairs_body)) (JStr ''So1abc'') =
     (None, [search_url no_repr (JStr ''So1abc'')])"
    by simp
  note th = failures_degrade[where first_get = "\<lambda>u. Response 500 (Some pairs_body)" and repr = no_repr
      and a = "JStr ''So1abc''" and second_get = "\<lambda>u. Transport_failure" and pf = float_of_number
      and nf = "\<lambda>ks. 0"]
  from th b have 4: "snd (get_token_details no_repr float_of_number (\<lambda>ks. 0)
     (\<lambda>u. Response 500 (Some pairs_body)) (\<lambda>u. Transport_failure) (JStr ''So1abc'')) =
     [search_url no_repr (JStr ''So1abc''), token_url no_repr (JStr ''So1abc'')]"
    by simp
  from th tp a have 5: "fst (get_token_details no_repr float_of_number (\<lambda>ks. 0)
     (\<lambda>u. Response 500 (Some pairs_body)) (\<lambda>u. Transport_failure) (JStr ''So1abc'')) = None"
    by simp
  from 4 5 have 45: "get_token_details no_repr float_of_number (\<lambda>ks. 0)
     (\<lambda>u. Response 500 (Some pairs_body)) (\<lambda>u. Transport_failure) (JStr ''So1abc'') =
     (None, [search_url no_repr (JStr ''So1abc''), token_url no_repr (JStr ''So1abc'')])"
    by (simp add: prod_eq_iff)
  from failures_degrade[where bi = plain_builtins and boost_data = rec_str and token_data = None] am
  have 6: "format_boost_message plain_builtins rec_str None = None"
    by simp
  from failures_degrade[where bi = plain_builtins and boost_data = rec_a
      and token_data = "Some (JList [JInt 1])" and d = "JList [JInt 1]"] tr
  have 7: "format_boost_message plain_builtins rec_a (Some (JList [JInt 1])) = None"
    by simp
  have gf: "get_float plain_builtins (JObj [(''priceUsd'', JStr ''abc'')]) ''priceUsd'' = Inl ValueError"
    by (simp add: get_float_def bind_err_def plain_builtins_def)
  from failures_degrade[where bi = plain_builtins and boost_data = rec_a
      and token_data = "Some (JObj [(''priceUsd'', JStr ''abc'')])"
      and d = "JObj [(''priceUsd'', JStr ''abc'')]"] gf
  have 9: "format_boost_message plain_builtins rec_a (Some (JObj [(''priceUsd'', JStr ''abc'')])) = None"
    using truthy.simps(7)[of "[(''priceUsd'', JStr ''abc'')]"] by blast
  have dx: "py_get (JObj [(''dexId'', JInt 5)]) ''dexId'' (JStr '''') = Inr (JInt 5)" by simp
  have ns: "\<forall>s. JInt 5 \<noteq> JStr s" by simp
  from failures_degrade[where bi = plain_builtins and boost_data = rec_a
      and token_data = "Some (JObj [(''dexId'', JInt 5)])" and d = "JObj [(''dexId'', JInt 5)]"]
    dx ns
  have 10: "format_boost_message plain_builtins rec_a (Some (JObj [(''dexId'', JInt 5)])) = None"
    using truthy.simps(7)[of "[(''dexId'', JInt 5)]"] by blast
  have dict: "\<exists>kv. rec_a = JObj kv" by (simp add: rec_a_def)
  from failures_degrade[where bi = plain_builtins and boost_data = rec_a and token_data = None]
    ama gt dict
  have 8: "format_boost_message plain_builtins rec_a None \<noteq> None"
    by simp
  from a b am tr 1 2 3 45 6 7 8 gf 9 dx 10 show ?thesis by simp
qed

text \<open>
  Claim C7 as the specification states it fails for a status that is not 2xx and for
  which the code does not treat the interaction as failed. For the feed:
  \<^verbatim>\<open>raise_for_status\<close> does not raise for the status 300, and a response with that status
  and a body that parses is processed like a successful one. For the lookup: after a
  search response with the status 500 the token endpoint is asked, and the pair it gives
  is returned.
\<close>

theorem failures_degrade_counterexample:
  "status_of (Response 300 (Some (JList [rec_a]))) = Some 300 \<and>
   \<not> (200 \<le> (300 :: nat) \<and> (300 :: nat) < 300) \<and>
   get_boosted_tokens no_repr (Response 300 (Some (JList [rec_a]))) {} =
     ([rec_a], {''So1abc_500_1500''}) \<and>
   status_of (Response 500 None) = Some 500 \<and>
   \<not> (200 \<le> (500 :: nat) \<and> (500 :: nat) < 300) \<and>
   fst (get_token_details no_repr float_of_number (\<lambda>ks. 0) (\<lambda>u. Response 500 None)
         (\<lambda>u. Response 200 (Some pairs_body)) (JStr ''So1abc'')) = Some pair_high"
proof -
  have f: "get_boosted_tokens no_repr (Response 300 (Some (JList [rec_a]))) {} =
     ([rec_a], {''So1abc_500_1500''})"
    by (simp add: scan_defs ex_defs)
  have l: "fst (get_token_details no_repr float_of_number (\<lambda>ks. 0) (\<lambda>u. Response 500 None)
         (\<lambda>u. Response 200 (Some pairs_body)) (JStr ''So1abc'')) = Some pair_high"
    by (simp add: details_defs ex2_defs chain_defs)
  from f l show ?thesis by simp
qed

section \<open>Properties of the bot\<close>

lemma message_text_not_empty: "message_text R d m a p ps lp u \<noteq> []"
  by (simp add: message_text_def NL_def)

lemma format_boost_message_not_empty:
  assumes "format_boost_message bi b t = Some m"
  shows "m \<noteq> []"
proof -
  from assms have "format_boost_message_try bi b t = Inr m"
    by (simp add: format_boost_message_def split: sum.splits)
  then show ?thesis
    unfolding format_boost_message_try_def
    by (auto dest!: bind_err_Inr simp: message_text_not_empty)
qed

lemma check_boost_criteria_True:
  assumes "check_boost_criteria b = Inr True"
  shows "\<exists>kv k. b = JObj kv \<and> k \<in> set BOOST_AMOUNTS \<and> num_val (amount_of b) = Some (of_int k) \<and>
           py_get b ''amount'' (JInt 0) = Inr (amount_of b)"
proof -
  from assms obtain kv where b: "b = JObj kv"
    by (cases b) (simp_all add: check_boost_criteria_def bind_err_def)
  with assms show ?thesis
    by (auto simp: check_boost_criteria_def bind_err_def amount_of_def list_ex_iff)
qed

lemma increment_stat_target:
  assumes "num_val amount = Some (of_int k)" and "stats k = Some n"
  shows "increment_stat stats amount = Inr (stats(k \<mapsto> n + 1))"
  using assms by (cases amount) (auto simp: increment_stat_def split: if_splits)

lemma process_boost_outcome:
  assumes "check_boost_criteria boost = Inr True" and "dom (boost_stats s) = set BOOST_AMOUNTS"
  shows "(case rendered w boost s of
            None \<Rightarrow>
              \<not> fst (process_boost w boost s) \<and>
              boost_stats (snd (process_boost w boost s)) = boost_stats s \<and>
              sent (snd (process_boost w boost s)) = sent s
          | Some m \<Rightarrow>
              if telegram w (length (sent s)) m
              then fst (process_boost w boost s) \<and>
                   sent (snd (process_boost w boost s)) = sent s @ [(m, True)] \<and>
                   (\<exists>k n. num_val (amount_of boost) = Some (of_int k) \<and>
                      boost_stats s k = Some n \<and>
                      boost_stats (snd (process_boost w boost s)) = (boost_stats s)(k \<mapsto> n + 1))
              else \<not> fst (process_boost w boost s) \<and>
                   sent (snd (process_boost w boost s)) = sent s @ [(m, False)] \<and>
                   boost_stats (snd (process_boost w boost s)) = boost_stats s) \<and>
         logged (snd (process_boost w boost s)) = logged s"
proof -
  from check_boost_criteria_True[OF assms(1)] obtain kv k where
    b: "boost = JObj kv" and k: "k \<in> set BOOST_AMOUNTS"
    and nv: "num_val (amount_of boost) = Some (of_int k)"
    and am: "py_get boost ''amount'' (JInt 0) = Inr (amount_of boost)" by blast
  from k assms(2) obtain n where n: "boost_stats s k = Some n" by blast
  obtain a where a: "py_get boost ''tokenAddress'' JNull = Inr a" using b by simp
  obtain td s1 where l: "lookup_token w a s = (td, s1)" by (cases "lookup_token w a s")
  then have s1: "sent s1 = sent s" "boost_stats s1 = boost_stats s" "logged s1 = logged s"
    by (auto simp: lookup_token_def split: prod.splits)
  have r: "rendered w boost s = format_boost_message (py w) boost td"
    using a l by (simp add: rendered_def)
  show ?thesis
  proof (cases "format_boost_message (py w) boost td")
    case None
    with a am l r s1 show ?thesis
      by (simp add: process_boost_def process_boost_try_def)
  next
    case (Some m)
    then have ne: "m \<noteq> []" by (rule format_boost_message_not_empty)
    show ?thesis
    proof (cases "telegram w (length (sent s)) m")
      case True
      have inc: "increment_stat (boost_stats s) (amount_of boost) = Inr ((boost_stats s)(k \<mapsto> n + 1))"
        using nv n by (rule increment_stat_target)
      from a am l r s1 Some ne True inc nv n show ?thesis
        by (auto simp: process_boost_def process_boost_try_def send_alert_def Let_def)
    next
      case False
      with a am l r s1 Some ne show ?thesis
        by (simp add: process_boost_def process_boost_try_def send_alert_def Let_def)
    qed
  qed
qed

lemma process_boost_step:
  assumes "check_boost_criteria boost = Inr True" and "dom (boost_stats s) = set BOOST_AMOUNTS"
  shows "delivered (snd (process_boost w boost s)) =
           delivered s + (if fst (process_boost w boost s) then 1 else 0) \<and>
         dom (boost_stats (snd (process_boost w boost s))) = set BOOST_AMOUNTS \<and>
         logged (snd (process_boost w boost s)) = logged s"
proof (cases "rendered w boost s")
  case None
  with process_boost_outcome[OF assms, of w] assms(2) show ?thesis
    by (simp add: delivered_def)
next
  case (Some m)
  show ?thesis
  proof (cases "telegram w (length (sent s)) m")
    case True
    with Some process_boost_outcome[OF assms, of w] obtain k n where
      "fst (process_boost w boost s)"
      "sent (snd (process_boost w boost s)) = sent s @ [(m, True)]"
      "boost_stats s k = Some n"
      "boost_stats (snd (process_boost w boost s)) = (boost_stats s)(k \<mapsto> n + 1)"
      "logged (snd (process_boost w boost s)) = logged s"
      by auto
    with assms(2) show ?thesis by (auto simp: delivered_def)
  next
    case False
    with Some process_boost_outcome[OF assms, of w] assms(2) show ?thesis
      by (simp add: delivered_def)
  qed
qed

lemma process_loop_invariant:
  assumes "\<forall>b\<in>set bs. check_boost_criteria b = Inr True"
    and "dom (boost_stats s) = set BOOST_AMOUNTS"
  shows "fst (process_loop w bs c s) =
           c + int (delivered (snd (process_loop w bs c s))) - int (delivered s) \<and>
         dom (boost_stats (snd (process_loop w bs c s))) = set BOOST_AMOUNTS \<and>
         logged (snd (process_loop w bs c s)) = logged s"
  using assms
proof (induction bs arbitrary: c s)
  case Nil
  then show ?case by simp
next
  case (Cons b bs)
  obtain ok s' where p: "process_boost w b s = (ok, s')" by (cases "process_boost w b s")
  from Cons.prems have t: "check_boost_criteria b = Inr True" by simp
  from process_boost_step[OF t Cons.prems(2), of w] p
  have st: "delivered s' = delivered s + (if ok then 1 else 0)"
    "dom (boost_stats s') = set BOOST_AMOUNTS" "logged s' = logged s" by simp_all
  from Cons.prems have rest: "\<forall>x\<in>set bs. check_boost_criteria x = Inr True" by simp
  from Cons.IH[OF rest st(2), of "if ok then c + 1 else c"] p st show ?case
    by (auto split: if_splits)
qed

lemma check_boost_criteria_dict: "\<exists>keep. check_boost_criteria (JObj kv) = Inr keep"
  by (simp add: check_boost_criteria_def bind_err_def)

lemma target_boosts_of_dicts:
  "\<forall>b\<in>set bs. \<exists>kv. b = JObj kv \<Longrightarrow> target_boosts_of bs = Inr (filter is_target_amount bs)"
proof (induction bs)
  case Nil
  then show ?case by simp
next
  case (Cons b bs)
  then obtain kv where b: "b = JObj kv" by auto
  obtain keep where k: "check_boost_criteria b = Inr keep"
    using check_boost_criteria_dict b by blast
  from Cons have "target_boosts_of bs = Inr (filter is_target_amount bs)" by simp
  with k show ?case unfolding is_target_amount_def by (simp add: bind_err_def)
qed

lemma fetched_are_dicts:
  assumes "b \<in> set (fst (get_boosted_tokens R r seen))"
  shows "\<exists>kv. b = JObj kv"
  using assms try_returned[of R r seen] chain_id_of_dict
  by (auto simp: get_boosted_tokens_returned)

lemma after_fetch_facts:
  "(\<forall>b\<in>set (fst (after_fetch w s)). \<exists>kv. b = JObj kv) \<and>
   boost_stats (snd (after_fetch w s)) = boost_stats s \<and>
   sent (snd (after_fetch w s)) = sent s \<and> logged (snd (after_fetch w s)) = logged s \<and>
   requested (snd (after_fetch w s)) = requested s @ [BOOST_API_URL]"
  using fetched_are_dicts[of _ "py_repr (py w)" "http w (length (requested s)) BOOST_API_URL" "seen_boost_ids s"]
  by (auto simp: after_fetch_def split: prod.splits)

lemma scan_and_process_after_fetch:
  "scan_and_process w s = process_new_boosts w (fst (after_fetch w s)) (snd (after_fetch w s))"
  by (simp add: scan_and_process_def after_fetch_def split: prod.splits)

lemma scan_and_process_invariant:
  assumes "dom (boost_stats s) = set BOOST_AMOUNTS"
  shows "fst (scan_and_process w s) =
           Inr (int (delivered (snd (scan_and_process w s))) - int (delivered s)) \<and>
         dom (boost_stats (snd (scan_and_process w s))) = set BOOST_AMOUNTS \<and>
         logged (snd (scan_and_process w s)) = logged s"
proof -
  let ?bs = "fst (after_fetch w s)" and ?s = "snd (after_fetch w s)"
  from after_fetch_facts[of w s] have d: "\<forall>b\<in>set ?bs. \<exists>kv. b = JObj kv"
    and st: "boost_stats ?s = boost_stats s" and se: "sent ?s = sent s"
    and lo: "logged ?s = logged s" by simp_all
  have tb: "target_boosts_of ?bs = Inr (filter is_target_amount ?bs)"
    using d by (rule target_boosts_of_dicts)
  have dl: "delivered ?s = delivered s" using se by (simp add: delivered_def)
  have inv: "dom (boost_stats ?s) = set BOOST_AMOUNTS" using st assms by simp
  have all: "\<forall>b\<in>set (filter is_target_amount ?bs). check_boost_criteria b = Inr True"
    by (simp add: is_target_amount_def)
  obtain n s' where pl: "process_loop w (filter is_target_amount ?bs) 0 ?s = (n, s')"
    by (cases "process_loop w (filter is_target_amount ?bs) 0 ?s")
  from process_loop_invariant[OF all inv, of w 0] pl dl lo
  have fin: "n = int (delivered s') - int (delivered s)"
    "dom (boost_stats s') = set BOOST_AMOUNTS" "logged s' = logged s" by simp_all
  show ?thesis
  proof (cases "?bs = [] \<or> filter is_target_amount ?bs = []")
    case True
    with tb dl lo inv show ?thesis
      unfolding scan_and_process_after_fetch process_new_boosts_def by auto
  next
    case False
    with tb pl fin show ?thesis
      unfolding scan_and_process_after_fetch process_new_boosts_def by simp
  qed
qed


lemmas bot_ex_defs = world_down_def world_up_def world_42_def plain_builtins_def init_bot_def
  rec_42_def BOOST_AMOUNTS_def

lemmas lookup_defs = lookup_token_def details_defs

text \<open>
  Claim C5, as amended. For a boost that has passed \<^verbatim>\<open>check_boost_criteria\<close>, in a state
  whose statistics have the target amounts as keys: when no text is formatted,
  \<^verbatim>\<open>process_boost\<close> returns \<^verbatim>\<open>False\<close>, sends nothing and leaves the statistics as they are;
  when a text is formatted and \<^verbatim>\<open>send_alert\<close> succeeds, it returns \<^verbatim>\<open>True\<close> and the count of
  the boost's amount grows by exactly 1, nothing else changing; when the send fails it
  returns \<^verbatim>\<open>False\<close> and leaves the statistics as they are. The outcome of the token lookup
  does not enter: with no token data the text is formatted from placeholders and sent.
  And \<^verbatim>\<open>scan_and_process\<close> returns the number of alerts delivered in the cycle.
\<close>

theorem stats_follow_delivery:
  assumes "check_boost_criteria boost = Inr True" and "dom (boost_stats s) = set BOOST_AMOUNTS"
  shows "(case rendered w boost s of
            None \<Rightarrow>
              \<not> fst (process_boost w boost s) \<and>
              boost_stats (snd (process_boost w boost s)) = boost_stats s \<and>
              sent (snd (process_boost w boost s)) = sent s
          | Some m \<Rightarrow>
              if telegram w (length (sent s)) m
              then fst (process_boost w boost s) \<and>
                   sent (snd (process_boost w boost s)) = sent s @ [(m, True)] \<and>
                   (\<exists>k n. num_val (amount_of boost) = Some (of_int k) \<and>
                      boost_stats s k = Some n \<and>
                      boost_stats (snd (process_boost w boost s)) = (boost_stats s)(k \<mapsto> n + 1))
              else \<not> fst (process_boost w boost s) \<and>
                   sent (snd (process_boost w boost s)) = sent s @ [(m, False)] \<and>
                   boost_stats (snd (process_boost w boost s)) = boost_stats s) \<and>
         fst (scan_and_process w s) =
           Inr (int (delivered (snd (scan_and_process w s))) - int (delivered s))"
  using process_boost_outcome[OF assms, of w] scan_and_process_invariant[OF assms(2), of w]
  by simp

text \<open>
  The first boost of a process whose lookups find a pair and whose first message is
  delivered: the count of the amount 500 goes from 0 to 1.
\<close>

theorem stats_follow_delivery_witness:
  "check_boost_criteria rec_a = Inr True \<and> dom (boost_stats init_bot) = set BOOST_AMOUNTS \<and>
   rendered world_up rec_a init_bot \<noteq> None \<and>
   fst (process_boost world_up rec_a init_bot) \<and>
   boost_stats init_bot 500 = Some 0 \<and>
   boost_stats (snd (process_boost world_up rec_a init_bot)) 500 = Some 1 \<and>
   fst (scan_and_process world_up init_bot) =
     Inr (int (delivered (snd (scan_and_process world_up init_bot))) - int (delivered init_bot))"
proof -
  have c: "check_boost_criteria rec_a = Inr True"
    by (simp add: check_boost_criteria_def bind_err_def ex_defs BOOST_AMOUNTS_def)
  have d: "dom (boost_stats init_bot) = set BOOST_AMOUNTS"
    by (auto simp: init_bot_def BOOST_AMOUNTS_def split: if_splits)
  have z: "boost_stats init_bot 500 = Some 0" by (simp add: init_bot_def BOOST_AMOUNTS_def)
  have am: "amount_of rec_a = JInt 500" by (simp add: amount_of_def ex_defs)
  have r: "rendered world_up rec_a init_bot \<noteq> None"
    by (simp add: rendered_def lookup_defs format_defs read_token_data_def get_float_def
        get_count_def bot_ex_defs ex_defs ex2_defs chain_defs BOOST_API_URL_def)
  then obtain m where m: "rendered world_up rec_a init_bot = Some m" by auto
  have t: "telegram world_up (length (sent init_bot)) m" by (simp add: world_up_def init_bot_def)
  note th = stats_follow_delivery[OF c d, of world_up]
  from th m t obtain k n where ok: "fst (process_boost world_up rec_a init_bot)"
    and k: "num_val (amount_of rec_a) = Some (of_int k)" and n: "boost_stats init_bot k = Some n"
    and st: "boost_stats (snd (process_boost world_up rec_a init_bot)) = (boost_stats init_bot)(k \<mapsto> n + 1)"
    by auto
  from k am have "k = 500" by simp
  with n z st have one: "boost_stats (snd (process_boost world_up rec_a init_bot)) 500 = Some 1"
    by simp
  from th c d r ok z one show ?thesis by simp
qed

text \<open>
  Claim C5 as the specification states it fails where it says that the statistics are
  left unchanged when the token lookup yields nil: with every lookup failing and the
  message delivered, the count of the amount 500 goes from 0 to 1.
\<close>

theorem stats_follow_delivery_counterexample:
  "fst (lookup_token world_down (JStr ''So1abc'') init_bot) = None \<and>
   boost_stats init_bot 500 = Some 0 \<and>
   fst (process_boost world_down rec_a init_bot) \<and>
   boost_stats (snd (process_boost world_down rec_a init_bot)) 500 = Some 1"
  by (simp add: process_boost_def process_boost_try_def send_alert_def increment_stat_def
      lookup_defs format_defs message_text_not_empty bot_ex_defs ex_defs placeholders_def)


lemma target_boosts_of_append:
  "target_boosts_of (xs @ ys) =
     bind_err (target_boosts_of xs) (\<lambda>ts. bind_err (target_boosts_of ys) (\<lambda>us. Inr (ts @ us)))"
  by (induction xs) (auto simp: bind_err_def split: sum.splits)

lemma target_boosts_of_skip:
  assumes "check_boost_criteria b = Inr False"
  shows "target_boosts_of (xs @ b # ys) = target_boosts_of (xs @ ys)"
  using assms by (simp add: target_boosts_of_append) (simp add: bind_err_def split: sum.splits)

lemma process_new_boosts_skip:
  assumes "check_boost_criteria b = Inr False"
  shows "process_new_boosts w (xs @ b # ys) s = process_new_boosts w (xs @ ys) s"
proof (cases "xs @ ys = []")
  case True
  with assms show ?thesis by (simp add: process_new_boosts_def bind_err_def)
next
  case False
  with target_boosts_of_skip[OF assms, of xs ys] show ?thesis
    by (simp add: process_new_boosts_def)
qed

lemma process_new_boosts_no_target:
  assumes "\<forall>x\<in>set bs. check_boost_criteria x = Inr False"
  shows "process_new_boosts w bs s = (Inr 0, s)"
proof -
  have "target_boosts_of bs = Inr []"
    using assms by (induction bs) (simp_all add: bind_err_def)
  then show ?thesis by (simp add: process_new_boosts_def)
qed

text \<open>The test of the code is the membership of the amount in the target set.\<close>

lemma check_boost_criteria_membership:
  "check_boost_criteria (JObj kv) = Inr (amount_in_target_set (JObj kv))"
  by (simp add: check_boost_criteria_def bind_err_def amount_in_target_set_def amount_of_def
      list_ex_iff)

lemma amount_in_target_set_int:
  "amount_of b = JInt n \<Longrightarrow> amount_in_target_set b = (n \<in> set BOOST_AMOUNTS)"
  by (auto simp: amount_in_target_set_def)

lemma target_boosts_of_membership:
  assumes "\<forall>x\<in>set bs. \<exists>kv. x = JObj kv"
  shows "target_boosts_of bs = Inr (filter amount_in_target_set bs)"
proof -
  have "filter is_target_amount bs = filter amount_in_target_set bs"
    using assms
    by (intro filter_cong) (auto simp: is_target_amount_def check_boost_criteria_membership)
  with target_boosts_of_dicts[OF assms] show ?thesis by simp
qed

text \<open>
  What \<^verbatim>\<open>process_boost\<close> requests: nothing is taken from the requests made so far, and
  for a dict the search endpoint is asked for its address.
\<close>

lemma get_token_details_urls:
  "search_url R a \<in> set (snd (get_token_details R pf nf g h a))"
  by (simp add: get_token_details_def split: sum.splits option.splits)

lemma process_boost_requested:
  "\<exists>urls. requested (snd (process_boost w b s)) = requested s @ urls \<and>
     ((\<exists>kv. b = JObj kv) \<longrightarrow> search_url (py_repr (py w)) (address_of b) \<in> set urls)"
proof (cases "\<exists>kv. b = JObj kv")
  case False
  then have "py_get b ''tokenAddress'' JNull = Inl AttributeError" by (cases b) auto
  then have "requested (snd (process_boost w b s)) = requested s"
    by (simp add: process_boost_def process_boost_try_def)
  with False show ?thesis by simp
next
  case True
  then obtain kv where b: "b = JObj kv" by blast
  have a: "py_get b ''tokenAddress'' JNull = Inr (address_of b)"
    by (simp add: b address_of_def)
  obtain am where am: "py_get b ''amount'' (JInt 0) = Inr am" by (simp add: b)
  let ?urls = "snd (get_token_details (py_repr (py w)) (py_float (py w)) (py_nan_first (py w))
                 (http w (length (requested s))) (http w (length (requested s) + 1)) (address_of b))"
  obtain td s1 where l: "lookup_token w (address_of b) s = (td, s1)"
    by (cases "lookup_token w (address_of b) s")
  then have s1: "requested s1 = requested s @ ?urls"
    by (auto simp: lookup_token_def split: prod.splits)
  have "requested (snd (process_boost w b s)) = requested s1"
    by (simp add: process_boost_def process_boost_try_def a am l send_alert_def Let_def
        split: option.splits sum.splits)
  with s1 get_token_details_urls show ?thesis by auto
qed

lemma process_loop_requested:
  "\<exists>urls. requested (snd (process_loop w bs c s)) = requested s @ urls \<and>
     (\<forall>b\<in>set bs. (\<exists>kv. b = JObj kv) \<longrightarrow> search_url (py_repr (py w)) (address_of b) \<in> set urls)"
proof (induction bs arbitrary: c s)
  case Nil
  then show ?case by simp
next
  case (Cons b bs)
  obtain ok s' where p: "process_boost w b s = (ok, s')" by (cases "process_boost w b s")
  from process_boost_requested[of w b s] p obtain us where
    us: "requested s' = requested s @ us"
      "(\<exists>kv. b = JObj kv) \<longrightarrow> search_url (py_repr (py w)) (address_of b) \<in> set us" by auto
  from Cons.IH[of "if ok then c + 1 else c" s'] obtain vs where
    vs: "requested (snd (process_loop w bs (if ok then c + 1 else c) s')) = requested s' @ vs"
      "\<forall>x\<in>set bs. (\<exists>kv. x = JObj kv) \<longrightarrow> search_url (py_repr (py w)) (address_of x) \<in> set vs"
    by blast
  from p us vs show ?case by (intro exI[of _ "us @ vs"]) auto
qed

lemma process_new_boosts_membership:
  assumes "\<forall>x\<in>set bs. \<exists>kv. x = JObj kv"
  shows "process_new_boosts w bs s =
           (if filter amount_in_target_set bs = [] then (Inr 0, s)
            else (case process_loop w (filter amount_in_target_set bs) 0 s of
                    (processed_count, s') \<Rightarrow> (Inr processed_count, s')))"
  using target_boosts_of_membership[OF assms]
  by (cases "bs = []") (simp_all add: process_new_boosts_def)

lemma process_new_boosts_lookup:
  assumes "\<forall>x\<in>set bs. \<exists>kv. x = JObj kv" and "b \<in> set bs" and "amount_in_target_set b"
  shows "search_url (py_repr (py w)) (address_of b) \<in> set (requested (snd (process_new_boosts w bs s)))"
proof -
  let ?ts = "filter amount_in_target_set bs"
  from assms have in_ts: "b \<in> set ?ts" and dict: "\<exists>kv. b = JObj kv" by auto
  have ne: "?ts \<noteq> []" using in_ts by (metis empty_iff list.set(1))
  from process_loop_requested[of w ?ts 0 s] in_ts dict
  have "search_url (py_repr (py w)) (address_of b) \<in> set (requested (snd (process_loop w ?ts 0 s)))"
    by auto
  with ne show ?thesis
    unfolding process_new_boosts_membership[OF assms(1)] by (simp add: case_prod_beta)
qed

text \<open>
  Claim C8. The test \<^verbatim>\<open>check_boost_criteria\<close> of the orchestrator is the membership of the
  boost's amount in the configured set of target amounts, \<^verbatim>\<open>BOOST_AMOUNTS\<close>; for an integer
  amount, that the integer is one of 500 and 100.
  \<^item> A boost whose amount is not in the set is excluded: the cycle ends in the same state
    and with the same count as if the boost were not among the fetched boosts, so it
    triggers no lookup, no formatting and no send and changes no statistic.
  \<^item> The filter keeps exactly the boosts whose amount is in the set, as they are and in
    their order, and the cycle processes exactly these: for each of them the search
    endpoint is asked for its token address.
  \<^item> A cycle whose fetched boosts all have amounts outside the set returns 0 having
    requested only the feed: nothing is sent and the statistics are unchanged.
\<close>

theorem amount_filter:
  "((\<exists>kv. b = JObj kv) \<longrightarrow> check_boost_criteria b = Inr (amount_in_target_set b)) \<and>
   (amount_of b = JInt n \<longrightarrow> amount_in_target_set b = (n \<in> set BOOST_AMOUNTS)) \<and>
   ((\<exists>kv. b = JObj kv) \<and> \<not> amount_in_target_set b \<longrightarrow>
      process_new_boosts w (xs @ b # ys) s = process_new_boosts w (xs @ ys) s) \<and>
   ((\<forall>x\<in>set boosts. \<exists>kv. x = JObj kv) \<longrightarrow>
      target_boosts_of boosts = Inr (filter amount_in_target_set boosts) \<and>
      process_new_boosts w boosts s =
        (if filter amount_in_target_set boosts = [] then (Inr 0, s)
         else (case process_loop w (filter amount_in_target_set boosts) 0 s of
                 (processed_count, s') \<Rightarrow> (Inr processed_count, s'))) \<and>
      (\<forall>x\<in>set boosts. amount_in_target_set x \<longrightarrow>
         search_url (py_repr (py w)) (address_of x) \<in>
           set (requested (snd (process_new_boosts w boosts s))))) \<and>
   ((\<forall>x\<in>set (fst (after_fetch w s)). \<not> amount_in_target_set x) \<longrightarrow>
      fst (scan_and_process w s) = Inr 0 \<and>
      boost_stats (snd (scan_and_process w s)) = boost_stats s \<and>
      sent (snd (scan_and_process w s)) = sent s \<and>
      requested (snd (scan_and_process w s)) = requested s @ [BOOST_API_URL])"
proof (intro conjI impI ballI)
  assume "\<exists>kv. b = JObj kv"
  then show "check_boost_criteria b = Inr (amount_in_target_set b)"
    using check_boost_criteria_membership by blast
next
  assume "amount_of b = JInt n"
  then show "amount_in_target_set b = (n \<in> set BOOST_AMOUNTS)"
    by (rule amount_in_target_set_int)
next
  assume "(\<exists>kv. b = JObj kv) \<and> \<not> amount_in_target_set b"
  then have "check_boost_criteria b = Inr False"
    using check_boost_criteria_membership by auto
  then show "process_new_boosts w (xs @ b # ys) s = process_new_boosts w (xs @ ys) s"
    by (rule process_new_boosts_skip)
next
  assume "\<forall>x\<in>set boosts. \<exists>kv. x = JObj kv"
  then show "target_boosts_of boosts = Inr (filter amount_in_target_set boosts)"
    by (rule target_boosts_of_membership)
next
  assume "\<forall>x\<in>set boosts. \<exists>kv. x = JObj kv"
  then show "process_new_boosts w boosts s =
        (if filter amount_in_target_set boosts = [] then (Inr 0, s)
         else (case process_loop w (filter amount_in_target_set boosts) 0 s of
                 (processed_count, s') \<Rightarrow> (Inr processed_count, s')))"
    by (rule process_new_boosts_membership)
next
  fix x
  assume "\<forall>x\<in>set boosts. \<exists>kv. x = JObj kv" and "x \<in> set boosts" and "amount_in_target_set x"
  then show "search_url (py_repr (py w)) (address_of x) \<in>
           set (requested (snd (process_new_boosts w boosts s)))"
    by (rule process_new_boosts_lookup)
next
  assume a: "\<forall>x\<in>set (fst (after_fetch w s)). \<not> amount_in_target_set x"
  have "\<forall>x\<in>set (fst (after_fetch w s)). check_boost_criteria x = Inr False"
  proof
    fix x assume x: "x \<in> set (fst (after_fetch w s))"
    with after_fetch_facts[of w s] obtain kv where "x = JObj kv" by blast
    with a x show "check_boost_criteria x = Inr False"
      using check_boost_criteria_membership by auto
  qed
  then have e: "scan_and_process w s = (Inr 0, snd (after_fetch w s))"
    unfolding scan_and_process_after_fetch by (rule process_new_boosts_no_target)
  from e show "fst (scan_and_process w s) = Inr 0" by simp
  from e after_fetch_facts[of w s]
  show "boost_stats (snd (scan_and_process w s)) = boost_stats s" by simp
  from e after_fetch_facts[of w s]
  show "sent (snd (scan_and_process w s)) = sent s" by simp
  from e after_fetch_facts[of w s]
  show "requested (snd (scan_and_process w s)) = requested s @ [BOOST_API_URL]" by simp
qed

text \<open>
  A boost of amount 42 between two boosts of the amounts 500 and 100, and a feed whose
  only record has the amount 42.
\<close>

theorem amount_filter_witness:
  "amount_of rec_42 = JInt 42 \<and> 42 \<notin> set BOOST_AMOUNTS \<and>
   check_boost_criteria rec_42 = Inr False \<and>
   amount_of rec_a = JInt 500 \<and> 500 \<in> set BOOST_AMOUNTS \<and>
   check_boost_criteria rec_a = Inr True \<and>
   process_new_boosts world_up ([rec_a] @ rec_42 # [rec_c]) init_bot =
     process_new_boosts world_up ([rec_a] @ [rec_c]) init_bot \<and>
   target_boosts_of [rec_a, rec_42, rec_c] = Inr [rec_a, rec_c] \<and>
   address_of rec_c = JStr ''So2xyz'' \<and>
   search_url no_repr (JStr ''So2xyz'') \<in>
     set (requested (snd (process_new_boosts world_up [rec_a, rec_42, rec_c] init_bot))) \<and>
   fst (after_fetch world_42 init_bot) = [rec_42] \<and>
   fst (scan_and_process world_42 init_bot) = Inr 0 \<and>
   boost_stats (snd (scan_and_process world_42 init_bot)) = boost_stats init_bot \<and>
   sent (snd (scan_and_process world_42 init_bot)) = [] \<and>
   requested (snd (scan_and_process world_42 init_bot)) = [BOOST_API_URL]"
proof -
  have am: "amount_of rec_42 = JInt 42" "amount_of rec_a = JInt 500" "amount_of rec_c = JInt 100"
    by (simp_all add: amount_of_def ex_defs rec_42_def)
  have mem: "42 \<notin> set BOOST_AMOUNTS" "500 \<in> set BOOST_AMOUNTS" "100 \<in> set BOOST_AMOUNTS"
    by (simp_all add: BOOST_AMOUNTS_def)
  have d: "\<exists>kv. rec_42 = JObj kv" "\<exists>kv. rec_a = JObj kv" "\<exists>kv. rec_c = JObj kv"
    by (simp_all add: ex_defs rec_42_def)
  have dicts: "\<forall>x\<in>set [rec_a, rec_42, rec_c]. \<exists>kv. x = JObj kv"
    using d by simp
  have ad: "address_of rec_c = JStr ''So2xyz''" by (simp add: address_of_def rec_c_def)
  have r: "py_repr (py world_up) = no_repr" by (simp add: world_up_def plain_builtins_def)
  have f: "fst (after_fetch world_42 init_bot) = [rec_42]"
    by (simp add: after_fetch_def scan_defs bot_ex_defs)
  have i: "sent init_bot = []" "requested init_bot = []" by (simp_all add: init_bot_def)
  from amount_filter[where b = rec_42 and n = 42] am mem
  have n42: "\<not> amount_in_target_set rec_42" by simp
  from amount_filter[where b = rec_a and n = 500] am mem
  have ya: "amount_in_target_set rec_a" by simp
  from amount_filter[where b = rec_c and n = 100] am mem
  have yc: "amount_in_target_set rec_c" by simp
  from amount_filter[where b = rec_42] d n42
  have c42: "check_boost_criteria rec_42 = Inr False" by simp
  from amount_filter[where b = rec_a] d ya
  have ca: "check_boost_criteria rec_a = Inr True" by simp
  from amount_filter[where b = rec_42 and w = world_up and xs = "[rec_a]" and ys = "[rec_c]"
      and s = init_bot] d n42
  have 1: "process_new_boosts world_up ([rec_a] @ rec_42 # [rec_c]) init_bot =
     process_new_boosts world_up ([rec_a] @ [rec_c]) init_bot" by blast
  note th2 = amount_filter[where boosts = "[rec_a, rec_42, rec_c]" and w = world_up and s = init_bot]
  from th2 dicts n42 ya yc have 2: "target_boosts_of [rec_a, rec_42, rec_c] = Inr [rec_a, rec_c]"
    by (simp add: bind_err_def)
  from th2 dicts have "\<forall>x\<in>set [rec_a, rec_42, rec_c]. amount_in_target_set x \<longrightarrow>
      search_url (py_repr (py world_up)) (address_of x) \<in>
        set (requested (snd (process_new_boosts world_up [rec_a, rec_42, rec_c] init_bot)))"
    by blast
  moreover have "rec_c \<in> set [rec_a, rec_42, rec_c]" by simp
  ultimately have "search_url (py_repr (py world_up)) (address_of rec_c) \<in>
      set (requested (snd (process_new_boosts world_up [rec_a, rec_42, rec_c] init_bot)))"
    using yc by blast
  with ad r have 3: "search_url no_repr (JStr ''So2xyz'') \<in>
     set (requested (snd (process_new_boosts world_up [rec_a, rec_42, rec_c] init_bot)))"
    by simp
  from amount_filter[where w = world_42 and s = init_bot] f n42 i
  have 4: "fst (scan_and_process world_42 init_bot) = Inr 0 \<and>
   boost_stats (snd (scan_and_process world_42 init_bot)) = boost_stats init_bot \<and>
   sent (snd (scan_and_process world_42 init_bot)) = [] \<and>
   requested (snd (scan_and_process world_42 init_bot)) = [BOOST_API_URL]" by simp
  from am mem c42 ca 1 2 ad 3 f 4 show ?thesis by simp
qed

text \<open>
  Claim C10. The statistics are created with exactly the target amounts as keys. In a
  state whose statistics have these keys, the increment succeeds for the amount of every
  boost that has passed \<^verbatim>\<open>check_boost_criteria\<close>; only such boosts are kept by the filter of
  \<^verbatim>\<open>scan_and_process\<close>; and a scan cycle logs no exception from \<^verbatim>\<open>process_boost\<close>, so no
  KeyError is raised, and leaves the keys as they are.
\<close>

theorem stats_key_present:
  assumes "dom (boost_stats s) = set BOOST_AMOUNTS"
  shows "dom (boost_stats init_bot) = set BOOST_AMOUNTS \<and>
         (\<forall>b. check_boost_criteria b = Inr True \<longrightarrow>
            (\<exists>stats. increment_stat (boost_stats s) (amount_of b) = Inr stats)) \<and>
         (\<forall>bs ts. target_boosts_of bs = Inr ts \<longrightarrow>
            (\<forall>b\<in>set ts. check_boost_criteria b = Inr True)) \<and>
         logged (snd (scan_and_process w s)) = logged s \<and>
         dom (boost_stats (snd (scan_and_process w s))) = set BOOST_AMOUNTS"
proof -
  have init: "dom (boost_stats init_bot) = set BOOST_AMOUNTS"
    by (auto simp: init_bot_def BOOST_AMOUNTS_def split: if_splits)
  have inc: "\<exists>stats. increment_stat (boost_stats s) (amount_of b) = Inr stats"
    if "check_boost_criteria b = Inr True" for b
  proof -
    from check_boost_criteria_True[OF that] obtain k where
      k: "k \<in> set BOOST_AMOUNTS" "num_val (amount_of b) = Some (of_int k)" by blast
    with assms obtain n where "boost_stats s k = Some n" by blast
    with k(2) show ?thesis by (auto dest: increment_stat_target)
  qed
  have kept: "\<forall>b\<in>set ts. check_boost_criteria b = Inr True"
    if "target_boosts_of bs = Inr ts" for bs ts
    using that
  proof (induction bs arbitrary: ts)
    case Nil
    then show ?case by simp
  next
    case (Cons x xs)
    then show ?case
      by (auto simp: bind_err_def split: sum.splits if_splits)
  qed
  from init inc kept scan_and_process_invariant[OF assms, of w] show ?thesis by blast
qed

text \<open>The first cycle of a bot, from the state that \<^verbatim>\<open>__init__\<close> builds.\<close>

theorem stats_key_present_witness:
  "dom (boost_stats init_bot) = set BOOST_AMOUNTS \<and>
   check_boost_criteria rec_c = Inr True \<and>
   (\<exists>stats. increment_stat (boost_stats init_bot) (amount_of rec_c) = Inr stats) \<and>
   logged (snd (scan_and_process world_up init_bot)) = [] \<and>
   dom (boost_stats (snd (scan_and_process world_up init_bot))) = set BOOST_AMOUNTS"
proof -
  have d: "dom (boost_stats init_bot) = set BOOST_AMOUNTS"
    by (auto simp: init_bot_def BOOST_AMOUNTS_def split: if_splits)
  have c: "check_boost_criteria rec_c = Inr True"
    by (simp add: check_boost_criteria_def bind_err_def ex_defs BOOST_AMOUNTS_def)
  have l: "logged init_bot = []" by (simp add: init_bot_def)
  from stats_key_present[OF d, of world_up] c l d show ?thesis by simp
qed

section \<open>Properties of format_price\<close>

lemma floor_rat_numeral: "\<lfloor>numeral a / numeral b :: rat\<rfloor> = numeral a div numeral b"
  by (metis floor_divide_of_int_eq of_int_numeral)

lemma rounded_1234: "round_half_even (float_1234_56789 * 10000) = 12345679"
  by (simp add: round_half_even_def float_1234_56789_def Let_def floor_rat_numeral)

lemma rounded_0_12: "round_half_even (float_0_123456789 * 1000000) = 123457"
  by (simp add: round_half_even_def float_0_123456789_def Let_def floor_rat_numeral)

lemma rounded_small: "round_half_even (float_0_0000001234 * 100000000) = 12"
  by (simp add: round_half_even_def float_0_0000001234_def Let_def floor_rat_numeral)

lemma digits_examples: "digits_of 1234 = ''1234''" "digits_of 5679 = ''5679''" "digits_of 0 = ''0''"
  "digits_of 123457 = ''123457''" "digits_of 12 = ''12''"
  by (simp_all add: digits_of.simps digit_char_def)

lemma fixed_1234: "format_f 4 (Fin float_1234_56789) = ''1234.5679''"
proof -
  have "\<not> float_1234_56789 < 0" "\<bar>float_1234_56789\<bar> = float_1234_56789"
    by (simp_all add: float_1234_56789_def)
  then show ?thesis by (simp add: fixed_def rounded_1234 digits_examples zero_pad_def Let_def)
qed

lemma fixed_0_12: "format_f 6 (Fin float_0_123456789) = ''0.123457''"
proof -
  have "\<not> float_0_123456789 < 0" "\<bar>float_0_123456789\<bar> = float_0_123456789"
    by (simp_all add: float_0_123456789_def)
  then show ?thesis by (simp add: fixed_def rounded_0_12 digits_examples zero_pad_def Let_def)
qed

lemma fixed_small: "format_f 8 (Fin float_0_0000001234) = ''0.00000012''"
proof -
  have "\<not> float_0_0000001234 < 0" "\<bar>float_0_0000001234\<bar> = float_0_0000001234"
    by (simp_all add: float_0_0000001234_def)
  then show ?thesis
    by (simp add: fixed_def rounded_small digits_examples zero_pad_def Let_def) (simp add: eval_nat_numeral)
qed

text \<open>
  The branch of line 78 is never taken: \<^verbatim>\<open>exp\<close> is 0 or the negation of a natural number,
  so \<^verbatim>\<open>exp > 6\<close> is false, and the result does not depend on the text of the float.
\<close>

lemma format_price_no_subscript: "format_price exp_digits x = format_price (\<lambda>x. None) x"
  by (simp add: format_price_def Let_def split: option.splits)

lemma order_1234:
  "\<not> lt_double (Fin float_1234_56789) (Fin 1) \<and>
   \<not> lt_double (Fin float_1234_56789) (Fin float_0_001) \<and> float_1234_56789 \<noteq> 0"
  by (simp add: lt_double_def float_1234_56789_def float_0_001_def)

lemma order_0_12:
  "lt_double (Fin float_0_123456789) (Fin 1) \<and>
   \<not> lt_double (Fin float_0_123456789) (Fin float_0_001) \<and> float_0_123456789 \<noteq> 0"
  by (simp add: lt_double_def float_0_123456789_def float_0_001_def)

lemma order_small:
  "lt_double (Fin float_0_0000001234) (Fin float_0_001) \<and>
   lt_double (Fin float_0_0000001234) (Fin float_0_000001) \<and> float_0_0000001234 \<noteq> 0"
  by (simp add: lt_double_def float_0_0000001234_def float_0_001_def float_0_000001_def)

lemma format_price_small_branch:
  "format_price exp_digits (Fin float_0_0000001234) =
     py_rstrip (CHR ''.'') (py_rstrip (CHR ''0'') (''$'' @ format_f 8 (Fin float_0_0000001234)))"
  unfolding format_price_no_subscript[of exp_digits]
  using order_small by (simp add: format_price_def Let_def del: format_f.simps)

lemma format_price_small:
  "format_price exp_digits (Fin float_0_0000001234) = ''$0.00000012''"
  unfolding format_price_small_branch fixed_small by (simp add: py_rstrip_def)

text \<open>
  Claim C3, as amended. \<^verbatim>\<open>format_price(0)\<close> is \<^verbatim>\<open>"$0.00"\<close>. Python's \<^verbatim>\<open>.4f\<close> and \<^verbatim>\<open>.6f\<close> round to
  the nearest decimal, they do not cut: \<^verbatim>\<open>format_price(1234.56789)\<close> is \<^verbatim>\<open>"$1234.5679"\<close> and
  \<^verbatim>\<open>format_price(0.123456789)\<close> is \<^verbatim>\<open>"$0.123457"\<close>. The value \<^verbatim>\<open>0.0000001234\<close> is below
  \<^verbatim>\<open>0.001\<close>, and \<^verbatim>\<open>format_price(0.0000001234)\<close> is the text that the branch for such values
  builds in lines 70 and 71, the value written with 8 decimals and stripped of its
  trailing zeros: \<^verbatim>\<open>"$0.00000012"\<close>. The arguments are the doubles that the literals denote,
  and the results hold whatever \<^verbatim>\<open>str\<close> gives for them.
\<close>

theorem format_price_tiers:
  "format_price exp_digits (Fin 0) = ''$0.00'' \<and>
   format_price exp_digits (Fin float_1234_56789) = ''$1234.5679'' \<and>
   format_price exp_digits (Fin float_0_123456789) = ''$0.123457'' \<and>
   lt_double (Fin float_0_0000001234) (Fin float_0_001) \<and>
   format_price exp_digits (Fin float_0_0000001234) =
     py_rstrip (CHR ''.'') (py_rstrip (CHR ''0'') (''$'' @ format_f 8 (Fin float_0_0000001234))) \<and>
   format_price exp_digits (Fin float_0_0000001234) = ''$0.00000012''"
proof -
  have a: "format_price exp_digits (Fin 0) = ''$0.00''" by (simp add: format_price_def)
  have b: "format_price exp_digits (Fin float_1234_56789) = ''$1234.5679''"
    using order_1234 by (simp add: format_price_def fixed_1234 py_rstrip_def del: format_f.simps)
  have c: "format_price exp_digits (Fin float_0_123456789) = ''$0.123457''"
    using order_0_12 by (simp add: format_price_def fixed_0_12 py_rstrip_def del: format_f.simps)
  from a b c order_small format_price_small_branch[of exp_digits] format_price_small[of exp_digits]
  show ?thesis by blast
qed

text \<open>
  Claim C3 as the specification states it fails on the two values it gives cut instead of
  rounded.
\<close>

theorem format_price_tiers_counterexample:
  "format_price (\<lambda>x. None) (Fin float_1234_56789) \<noteq> ''$1234.5678'' \<and>
   format_price (\<lambda>x. None) (Fin float_0_123456789) \<noteq> ''$0.123456''"
proof -
  have b: "format_price (\<lambda>x. None) (Fin float_1234_56789) = ''$1234.5679''"
    using order_1234 by (simp add: format_price_def fixed_1234 py_rstrip_def del: format_f.simps)
  have c: "format_price (\<lambda>x. None) (Fin float_0_123456789) = ''$0.123457''"
    using order_0_12 by (simp add: format_price_def fixed_0_12 py_rstrip_def del: format_f.simps)
  show ?thesis unfolding b c by simp
qed

end
